theory Spec2Isabelle
  imports Main
begin

section \<open>Strings\<close>

text \<open>
  A Go string is a sequence of bytes, and so is a \<^typ>\<open>string\<close> here. The functions of
  package \<^verbatim>\<open>strings\<close> that \<^verbatim>\<open>internal/swarm/integration.go\<close> calls are modelled on bytes.
  Their ASCII paths are written out; where the library leaves the ASCII path (a byte
  \<open>\<ge> 0x80\<close>) it consults the Unicode tables, and that part is a parameter of the model.
\<close>

definition isASCII :: "char \<Rightarrow> bool" where
  "isASCII c = ((of_char c :: nat) < 128)"

definition isUpperAZ :: "char \<Rightarrow> bool" where
  "isUpperAZ c = (65 \<le> (of_char c :: nat) \<and> (of_char c :: nat) \<le> 90)"

definition lowerAZ :: "char \<Rightarrow> char" where
  "lowerAZ c = (if isUpperAZ c then char_of ((of_char c :: nat) + 32) else c)"

text \<open>
  \<^verbatim>\<open>strings.ToLower(s)\<close>: an all-ASCII string has its letters \<open>A..Z\<close> moved to \<open>a..z\<close>;
  any other string is \<^verbatim>\<open>strings.Map(unicode.ToLower, s)\<close>, the parameter \<open>ul\<close>.
\<close>

definition ToLower :: "(string \<Rightarrow> string) \<Rightarrow> string \<Rightarrow> string" where
  "ToLower ul s = (if list_all isASCII s then map lowerAZ s else ul s)"

text \<open>\<^verbatim>\<open>strings.HasPrefix(s, prefix)\<close>.\<close>

definition HasPrefix :: "string \<Rightarrow> string \<Rightarrow> bool" where
  "HasPrefix s p = (length p \<le> length s \<and> take (length p) s = p)"

text \<open>\<^verbatim>\<open>strings.Contains(s, substr)\<close>: \<open>substr\<close> starts at some index of \<open>s\<close>.\<close>

fun Contains :: "string \<Rightarrow> string \<Rightarrow> bool" where
  "Contains [] sub = (sub = [])"
| "Contains (c # cs) sub = (HasPrefix (c # cs) sub \<or> Contains cs sub)"

text \<open>The bytes \<^verbatim>\<open>'\t', '\n', '\v', '\f', '\r', ' '\<close> of the library's \<^verbatim>\<open>asciiSpace\<close> table.\<close>

definition asciiSpace :: "char \<Rightarrow> bool" where
  "asciiSpace c = ((of_char c :: nat) \<in> {9, 10, 11, 12, 13, 32})"

text \<open>
  \<^verbatim>\<open>strings.TrimSpace(s)\<close>. The first loop skips ASCII space from the left; on a non-ASCII
  byte it returns \<^verbatim>\<open>TrimFunc(s[start:], unicode.IsSpace)\<close> (parameter \<open>tf\<close>). The second loop
  skips ASCII space from the right; on a non-ASCII byte it returns
  \<^verbatim>\<open>TrimRightFunc(s[start:stop], unicode.IsSpace)\<close> (parameter \<open>trf\<close>).
\<close>

fun trimSpaceLeft :: "(string \<Rightarrow> string) \<Rightarrow> string \<Rightarrow> string + string" where
  "trimSpaceLeft tf [] = Inr []"
| "trimSpaceLeft tf (c # cs) =
     (if \<not> isASCII c then Inl (tf (c # cs))
      else if asciiSpace c then trimSpaceLeft tf cs
      else Inr (c # cs))"

fun trimSpaceRight :: "(string \<Rightarrow> string) \<Rightarrow> string \<Rightarrow> string" where
  "trimSpaceRight trf [] = []"
| "trimSpaceRight trf (c # cs) =
     (if \<not> isASCII c then trf (rev (c # cs))
      else if asciiSpace c then trimSpaceRight trf cs
      else rev (c # cs))"

definition TrimSpace :: "(string \<Rightarrow> string) \<Rightarrow> (string \<Rightarrow> string) \<Rightarrow> string \<Rightarrow> string" where
  "TrimSpace tf trf s =
     (case trimSpaceLeft tf s of
        Inl r \<Rightarrow> r
      | Inr rest \<Rightarrow> trimSpaceRight trf (rev rest))"

text \<open>\<^verbatim>\<open>strings.Split(s, "\n")\<close>: the pieces between line feeds, one more than there are line feeds.\<close>

fun SplitLines :: "string \<Rightarrow> string list" where
  "SplitLines [] = [[]]"
| "SplitLines (c # cs) =
     (if c = CHR 0x0A then [] # SplitLines cs
      else (case SplitLines cs of
              [] \<Rightarrow> [[c]]
            | l # ls \<Rightarrow> (c # l) # ls))"

section \<open>Errors\<close>

text \<open>
  The error values of the package: the three sentinels, \<^verbatim>\<open>*SwarmGitError\<close> with its four
  fields, the wrapper \<^verbatim>\<open>fmt.Errorf("<prefix>%w", err)\<close>, the error of \<^verbatim>\<open>cmd.Run()\<close>, and any
  other plain error value (\<^verbatim>\<open>errors.New\<close>, \<^verbatim>\<open>fmt.Errorf\<close> without \<^verbatim>\<open>%w\<close>), such as the ones the
  lock and the swarm store return. \<^verbatim>\<open>nil\<close> is \<open>None\<close> of \<open>err option\<close>.
\<close>

datatype err =
    ErrBranchExists
  | ErrBranchNotFound
  | ErrNotOnIntegration
  | SwarmGitError (Command: string) (Stdout: string) (Stderr: string) (Err: "err option")
  | Errorf string err
  | ExecError string
  | PlainError string


text \<open>
  \<^verbatim>\<open>errors.As(err, &gitErr)\<close> with \<^verbatim>\<open>gitErr *SwarmGitError\<close>: the first \<^verbatim>\<open>*SwarmGitError\<close> on the
  chain of \<^verbatim>\<open>Unwrap\<close>. Only the \<^verbatim>\<open>%w\<close> wrapper unwraps; \<^verbatim>\<open>SwarmGitError\<close> has no \<^verbatim>\<open>Unwrap\<close> method.
\<close>

fun errorsAs :: "err \<Rightarrow> err option" where
  "errorsAs (SwarmGitError cmd out serr e) = Some (SwarmGitError cmd out serr e)"
| "errorsAs (Errorf p e) = errorsAs e"
| "errorsAs _ = None"

section \<open>The fetch error classifier\<close>

definition permanentPatterns :: "string list" where
  "permanentPatterns =
     [''couldn't find remote ref'',
      ''not found'',
      ''does not appear to be a git repository'',
      ''permission denied'',
      ''authentication failed'']"

text \<open>The loop over \<^verbatim>\<open>permanentPatterns\<close>: \<open>False\<close> at the first pattern found, \<open>True\<close> after the last.\<close>

fun noPatternIn :: "string \<Rightarrow> string list \<Rightarrow> bool" where
  "noPatternIn stderr [] = True"
| "noPatternIn stderr (pattern # ps) =
     (if Contains stderr pattern then False else noPatternIn stderr ps)"

definition isTransientFetchError :: "(string \<Rightarrow> string) \<Rightarrow> err option \<Rightarrow> bool" where
  "isTransientFetchError ul e =
     (case e of
        None \<Rightarrow> False
      | Some x \<Rightarrow>
          (case errorsAs x of
             None \<Rightarrow> True
           | Some gitErr \<Rightarrow> noPatternIn (ToLower ul (Stderr gitErr)) permanentPatterns))"

section \<open>Branch names\<close>

text \<open>
  \<^verbatim>\<open>GetWorkerBranch\<close> is a method of \<^verbatim>\<open>*Manager\<close>; the receiver \<open>m\<close> is not read.
  \<^verbatim>\<open>fmt.Sprintf("%s/%s/%s", ...)\<close> writes the three strings with a slash between them.
\<close>

definition GetWorkerBranch :: "'m \<Rightarrow> string \<Rightarrow> string \<Rightarrow> string \<Rightarrow> string" where
  "GetWorkerBranch m swarmID worker taskID = swarmID @ ''/'' @ worker @ ''/'' @ taskID"

section \<open>The world outside the package\<close>

text \<open>
  Modelled from the spec: the types of a swarm and of a task, which are declared outside
  \<^verbatim>\<open>integration.go\<close>. The spec gives a swarm a base commit, an integration-branch name, a target
  branch name and an ordered collection of tasks, and a task its worker branch name. The
  fields below are the ones \<^verbatim>\<open>integration.go\<close> reads, under the names it reads them by:
  \<^verbatim>\<open>Integration\<close>, \<^verbatim>\<open>BaseCommit\<close>, \<^verbatim>\<open>TargetBranch\<close>, \<^verbatim>\<open>Tasks\<close>, and \<^verbatim>\<open>Branch\<close> of a task.
\<close>

record Task =
  Branch :: string

record Swarm =
  Integration :: string
  BaseCommit :: string
  TargetBranch :: string
  Tasks :: "Task list"

text \<open>What one run of \<^verbatim>\<open>git\<close> gives back: the error of \<^verbatim>\<open>cmd.Run()\<close> and the two captured streams.\<close>

record proc =
  runErr :: "string option"
  stdout :: string
  stderr :: string

text \<open>
  Every call that leaves the package is written to a log, with what it returned: taking
  and releasing the swarm lock, loading the swarm, running \<^verbatim>\<open>git\<close> with an argument vector, and
  sleeping for a number of nanoseconds.
\<close>

datatype event =
    EvLock string "err option"
  | EvUnlock string
  | EvLoad string "err + Swarm"
  | EvGit "string list" proc
  | EvSleep int

text \<open>
  The environment answers each call from everything that has happened so far. The methods
  \<^verbatim>\<open>m.lockSwarm\<close> and \<^verbatim>\<open>m.LoadSwarm\<close> are defined outside \<^verbatim>\<open>integration.go\<close>: what they return is
  a parameter, as is what the \<^verbatim>\<open>git\<close> process returns. Each is an arbitrary function of the
  history, so nothing is assumed about them. The last three fields are the Unicode paths of
  \<^verbatim>\<open>strings.ToLower\<close> and \<^verbatim>\<open>strings.TrimSpace\<close>.
\<close>

record env =
  lock_result :: "event list \<Rightarrow> string \<Rightarrow> err option"
  load_result :: "event list \<Rightarrow> string \<Rightarrow> err + Swarm"
  git_result :: "event list \<Rightarrow> string list \<Rightarrow> proc"
  unicodeLower :: "string \<Rightarrow> string"
  unicodeTrim :: "string \<Rightarrow> string"
  unicodeTrimRight :: "string \<Rightarrow> string"

definition lockSwarm :: "env \<Rightarrow> string \<Rightarrow> event list \<Rightarrow> err option \<times> event list" where
  "lockSwarm env swarmID log =
     (let r = lock_result env log swarmID in (r, log @ [EvLock swarmID r]))"

text \<open>\<^verbatim>\<open>_ = fl.Unlock()\<close>: the result is dropped.\<close>

definition Unlock :: "string \<Rightarrow> event list \<Rightarrow> event list" where
  "Unlock swarmID log = log @ [EvUnlock swarmID]"

definition LoadSwarm :: "env \<Rightarrow> string \<Rightarrow> event list \<Rightarrow> (err + Swarm) \<times> event list" where
  "LoadSwarm env swarmID log =
     (let r = load_result env log swarmID in (r, log @ [EvLoad swarmID r]))"

text \<open>\<^verbatim>\<open>exec.Command("git", args...)\<close> with \<^verbatim>\<open>cmd.Dir = m.gitDir\<close>, then \<^verbatim>\<open>cmd.Run()\<close>.\<close>

definition cmdRun :: "env \<Rightarrow> string list \<Rightarrow> event list \<Rightarrow> proc \<times> event list" where
  "cmdRun env args log =
     (let p = git_result env log args in (p, log @ [EvGit args p]))"

definition Sleep :: "int \<Rightarrow> event list \<Rightarrow> event list" where
  "Sleep d log = log @ [EvSleep d]"

section \<open>The git command executor\<close>

text \<open>The loop of \<^verbatim>\<open>gitRun\<close> that picks the first argument without a leading dash.\<close>

fun firstNonFlag :: "string list \<Rightarrow> string" where
  "firstNonFlag [] = []"
| "firstNonFlag (arg # args) =
     (if \<not> HasPrefix arg ''-'' then arg else firstNonFlag args)"

text \<open>The value \<^verbatim>\<open>gitRun\<close> returns for a finished process.\<close>

definition gitRunError :: "env \<Rightarrow> string list \<Rightarrow> proc \<Rightarrow> err option" where
  "gitRunError env args p =
     (case runErr p of
        Some x \<Rightarrow>
          (let command = firstNonFlag args;
               command = (if command = [] \<and> length args > 0 then args ! 0 else command)
           in Some (SwarmGitError command
                 (TrimSpace (unicodeTrim env) (unicodeTrimRight env) (stdout p))
                 (TrimSpace (unicodeTrim env) (unicodeTrimRight env) (stderr p))
                 (Some (ExecError x))))
      | None \<Rightarrow> None)"

definition gitRun :: "env \<Rightarrow> string list \<Rightarrow> event list \<Rightarrow> err option \<times> event list" where
  "gitRun env args log =
     (let (p, log') = cmdRun env args log in (gitRunError env args p, log'))"

definition branchExists :: "env \<Rightarrow> string \<Rightarrow> event list \<Rightarrow> bool \<times> event list" where
  "branchExists env branch log =
     (let (e, log') = gitRun env [''show-ref'', ''--verify'', ''--quiet'', ''refs/heads/'' @ branch] log
      in (e = None, log'))"

text \<open>\<^verbatim>\<open>getCurrentBranch\<close> returns \<^verbatim>\<open>("", err)\<close> or the trimmed standard output and \<^verbatim>\<open>nil\<close>.\<close>

definition currentBranchOf :: "env \<Rightarrow> proc \<Rightarrow> string \<times> err option" where
  "currentBranchOf env p =
     (case runErr p of
        Some x \<Rightarrow> ([], Some (ExecError x))
      | None \<Rightarrow> (TrimSpace (unicodeTrim env) (unicodeTrimRight env) (stdout p), None))"

definition getCurrentBranch :: "env \<Rightarrow> event list \<Rightarrow> (string \<times> err option) \<times> event list" where
  "getCurrentBranch env log =
     (let (p, log') = cmdRun env [''rev-parse'', ''--abbrev-ref'', ''HEAD''] log
      in (currentBranchOf env p, log'))"

text \<open>
  \<^verbatim>\<open>getConflictingFiles\<close> returns \<^verbatim>\<open>(nil, err)\<close> when the command fails, \<^verbatim>\<open>(nil, nil)\<close> when the
  trimmed output is empty, and the non-empty lines of the output otherwise.
\<close>

definition conflictingFilesOf :: "env \<Rightarrow> proc \<Rightarrow> string list \<times> err option" where
  "conflictingFilesOf env p =
     (case runErr p of
        Some x \<Rightarrow> ([], Some (ExecError x))
      | None \<Rightarrow>
          (let out = TrimSpace (unicodeTrim env) (unicodeTrimRight env) (stdout p) in
           if out = [] then ([], None)
           else (filter (\<lambda>f. f \<noteq> []) (SplitLines out), None)))"

definition diffUnmerged :: "string list" where
  "diffUnmerged = [''diff'', ''--name-only'', ''--diff-filter=U'']"

definition getConflictingFiles :: "env \<Rightarrow> event list \<Rightarrow> (string list \<times> err option) \<times> event list" where
  "getConflictingFiles env log =
     (let (p, log') = cmdRun env diffUnmerged log in (conflictingFilesOf env p, log'))"

section \<open>Fetch with retry\<close>

definition fetchRetries :: nat where
  "fetchRetries = 3"

text \<open>\<^verbatim>\<open>2 * time.Second\<close>, a \<^verbatim>\<open>time.Duration\<close> in nanoseconds.\<close>

definition fetchRetryDelay :: int where
  "fetchRetryDelay = 2 * 1000000000"

text \<open>
  The loop of \<^verbatim>\<open>fetchWithRetry\<close>, from counter \<open>i\<close> with the last error seen. The product
  \<^verbatim>\<open>fetchRetryDelay * time.Duration(i+1)\<close> is at most \<open>4 * 10^9\<close>, far below \<open>2^63\<close>.
\<close>

function fetchLoop ::
  "env \<Rightarrow> string \<Rightarrow> string \<Rightarrow> nat \<Rightarrow> err option \<Rightarrow> event list \<Rightarrow> err option \<times> event list" where
  "fetchLoop env remote branch i lastErr log =
     (if i < fetchRetries then
        (case gitRun env [''fetch'', remote, branch] log of
           (lastErr', log1) \<Rightarrow>
             if lastErr' = None then (None, log1)
             else if \<not> isTransientFetchError (unicodeLower env) lastErr' then (lastErr', log1)
             else fetchLoop env remote branch (i + 1) lastErr'
                    (if i < fetchRetries - 1
                     then Sleep (fetchRetryDelay * int (i + 1)) log1
                     else log1))
      else (lastErr, log))"
  by pat_completeness auto
termination
  by (relation "measure (\<lambda>(env, remote, branch, i, lastErr, log). fetchRetries - i)") auto

declare fetchLoop.simps [simp del]

definition fetchWithRetry :: "env \<Rightarrow> string \<Rightarrow> string \<Rightarrow> event list \<Rightarrow> err option \<times> event list" where
  "fetchWithRetry env remote branch log = fetchLoop env remote branch 0 None log"

section \<open>The branch lifecycle operations\<close>

text \<open>
  Each operation takes the log so far and returns its error (\<open>None\<close> for \<^verbatim>\<open>nil\<close>) and the
  log extended by its calls. The deferred \<^verbatim>\<open>fl.Unlock()\<close> runs when the body has returned.
\<close>

definition CreateIntegrationBranch :: "env \<Rightarrow> string \<Rightarrow> event list \<Rightarrow> err option \<times> event list" where
  "CreateIntegrationBranch env swarmID log =
     (case lockSwarm env swarmID log of
        (Some e, log1) \<Rightarrow> (Some e, log1)
      | (None, log1) \<Rightarrow>
          (case
             (case LoadSwarm env swarmID log1 of
                (Inl e, log2) \<Rightarrow> (Some e, log2)
              | (Inr swarm, log2) \<Rightarrow>
                  (let branchName = Integration swarm in
                   case branchExists env branchName log2 of
                     (True, log3) \<Rightarrow> (Some ErrBranchExists, log3)
                   | (False, log3) \<Rightarrow>
                       (case gitRun env [''checkout'', ''-b'', branchName, BaseCommit swarm] log3 of
                          (Some e, log4) \<Rightarrow> (Some (Errorf ''creating branch: '' e), log4)
                        | (None, log4) \<Rightarrow>
                            (case gitRun env [''push'', ''-u'', ''origin'', branchName] log4 of
                               (_, log5) \<Rightarrow> (None, log5)))))
           of (r, log') \<Rightarrow> (r, Unlock swarmID log')))"

definition MergeToIntegration ::
  "env \<Rightarrow> string \<Rightarrow> string \<Rightarrow> event list \<Rightarrow> err option \<times> event list" where
  "MergeToIntegration env swarmID workerBranch log =
     (case lockSwarm env swarmID log of
        (Some e, log1) \<Rightarrow> (Some e, log1)
      | (None, log1) \<Rightarrow>
          (case
             (case LoadSwarm env swarmID log1 of
                (Inl e, log2) \<Rightarrow> (Some e, log2)
              | (Inr swarm, log2) \<Rightarrow>
                  (case getCurrentBranch env log2 of
                     ((_, Some e), log3) \<Rightarrow> (Some (Errorf ''getting current branch: '' e), log3)
                   | ((currentBranch, None), log3) \<Rightarrow>
                       (case (if currentBranch \<noteq> Integration swarm
                              then gitRun env [''checkout'', Integration swarm] log3
                              else (None, log3)) of
                          (Some e, log4) \<Rightarrow> (Some (Errorf ''checking out integration: '' e), log4)
                        | (None, log4) \<Rightarrow>
                            (case fetchWithRetry env ''origin'' workerBranch log4 of
                               (fetchErr, log5) \<Rightarrow>
                                 (case gitRun env
                                         [''merge'', ''--no-ff'', ''-m'',
                                          ''Merge '' @ workerBranch @ '' into '' @ Integration swarm,
                                          workerBranch] log5 of
                                    (Some e, log6) \<Rightarrow>
                                      (case getConflictingFiles env log6 of
                                         ((conflicts, conflictErr), log7) \<Rightarrow>
                                           if conflictErr = None \<and> length conflicts > 0
                                           then (Some e, log7)
                                           else (Some (Errorf ''merging: '' e), log7))
                                  | (None, log6) \<Rightarrow> (None, log6))))))
           of (r, log') \<Rightarrow> (r, Unlock swarmID log')))"

text \<open>\<^verbatim>\<open>AbortMerge\<close> has no swarm identifier; it runs one command.\<close>

definition AbortMerge :: "env \<Rightarrow> event list \<Rightarrow> err option \<times> event list" where
  "AbortMerge env log = gitRun env [''merge'', ''--abort''] log"

definition LandToMain :: "env \<Rightarrow> string \<Rightarrow> event list \<Rightarrow> err option \<times> event list" where
  "LandToMain env swarmID log =
     (case lockSwarm env swarmID log of
        (Some e, log1) \<Rightarrow> (Some e, log1)
      | (None, log1) \<Rightarrow>
          (case
             (case LoadSwarm env swarmID log1 of
                (Inl e, log2) \<Rightarrow> (Some e, log2)
              | (Inr swarm, log2) \<Rightarrow>
                  (case gitRun env [''checkout'', TargetBranch swarm] log2 of
                     (Some e, log3) \<Rightarrow>
                       (Some (Errorf (''checking out '' @ TargetBranch swarm @ '': '') e), log3)
                   | (None, log3) \<Rightarrow>
                       (case fetchWithRetry env ''origin'' (TargetBranch swarm) log3 of
                          (pullErr, log4) \<Rightarrow>
                            (case gitRun env
                                    [''merge'', ''--no-ff'', ''-m'', ''Land swarm '' @ swarmID,
                                     Integration swarm] log4 of
                               (Some e, log5) \<Rightarrow>
                                 (case getConflictingFiles env log5 of
                                    ((conflicts, conflictErr), log6) \<Rightarrow>
                                      if conflictErr = None \<and> length conflicts > 0
                                      then (Some e, log6)
                                      else (Some (Errorf (''merging to '' @ TargetBranch swarm @ '': '') e),
                                            log6))
                             | (None, log5) \<Rightarrow>
                                 (case gitRun env [''push'', ''origin'', TargetBranch swarm] log5 of
                                    (Some e, log6) \<Rightarrow> (Some (Errorf ''pushing: '' e), log6)
                                  | (None, log6) \<Rightarrow> (None, log6))))))
           of (r, log') \<Rightarrow> (r, Unlock swarmID log')))"

text \<open>The loop of \<^verbatim>\<open>CleanupBranches\<close> over \<^verbatim>\<open>swarm.Tasks\<close>; both results are dropped.\<close>

fun deleteWorkerBranches :: "env \<Rightarrow> Task list \<Rightarrow> event list \<Rightarrow> event list" where
  "deleteWorkerBranches env [] log = log"
| "deleteWorkerBranches env (task # tasks) log =
     (if Branch task \<noteq> [] then
        (case gitRun env [''branch'', ''-D'', Branch task] log of
           (_, log1) \<Rightarrow>
             (case gitRun env [''push'', ''origin'', ''--delete'', Branch task] log1 of
                (_, log2) \<Rightarrow> deleteWorkerBranches env tasks log2))
      else deleteWorkerBranches env tasks log)"

definition CleanupBranches :: "env \<Rightarrow> string \<Rightarrow> event list \<Rightarrow> err option \<times> event list" where
  "CleanupBranches env swarmID log =
     (case lockSwarm env swarmID log of
        (Some e, log1) \<Rightarrow> (Some e, log1)
      | (None, log1) \<Rightarrow>
          (case
             (case LoadSwarm env swarmID log1 of
                (Inl e, log2) \<Rightarrow> (Some e, log2)
              | (Inr swarm, log2) \<Rightarrow>
                  (case gitRun env [''branch'', ''-D'', Integration swarm] log2 of
                     (lastErr, log3) \<Rightarrow>
                       (case gitRun env [''push'', ''origin'', ''--delete'', Integration swarm] log3 of
                          (_, log4) \<Rightarrow>
                            (lastErr, deleteWorkerBranches env (Tasks swarm) log4))))
           of (r, log') \<Rightarrow> (r, Unlock swarmID log')))"

section \<open>Reading a log\<close>

text \<open>The argument vectors of the \<^verbatim>\<open>git\<close> runs of a log, in order.\<close>

fun gitCalls :: "event list \<Rightarrow> string list list" where
  "gitCalls [] = []"
| "gitCalls (EvGit args p # evs) = args # gitCalls evs"
| "gitCalls (_ # evs) = gitCalls evs"

fun isGitEvent :: "event \<Rightarrow> bool" where
  "isGitEvent (EvGit args p) = True"
| "isGitEvent _ = False"

fun isLockEvent :: "event \<Rightarrow> bool" where
  "isLockEvent (EvLock swarmID r) = True"
| "isLockEvent (EvUnlock swarmID) = True"
| "isLockEvent _ = False"

text \<open>The events of a fetch with retry: runs of \<^verbatim>\<open>git fetch\<close> and sleeps.\<close>

fun fetchOrSleep :: "event \<Rightarrow> bool" where
  "fetchOrSleep (EvGit args p) = (args \<noteq> [] \<and> hd args = ''fetch'')"
| "fetchOrSleep (EvSleep d) = True"
| "fetchOrSleep _ = False"

text \<open>
  The events between loading the swarm and merging: runs of \<^verbatim>\<open>git rev-parse\<close>,
  \<^verbatim>\<open>git checkout\<close> and \<^verbatim>\<open>git fetch\<close>, and sleeps.
\<close>

fun prelude :: "event \<Rightarrow> bool" where
  "prelude (EvSleep d) = True"
| "prelude (EvGit args p) = (args \<noteq> [] \<and> hd args \<in> {''rev-parse'', ''checkout'', ''fetch''})"
| "prelude _ = False"

text \<open>The events an operation appended to the log it was given.\<close>

definition newEvents :: "event list \<Rightarrow> 'a \<times> event list \<Rightarrow> event list" where
  "newEvents log res = drop (length log) (snd res)"

text \<open>The argument vectors of the two merges.\<close>

definition mergeArgs :: "string \<Rightarrow> Swarm \<Rightarrow> string list" where
  "mergeArgs workerBranch swarm =
     [''merge'', ''--no-ff'', ''-m'',
      ''Merge '' @ workerBranch @ '' into '' @ Integration swarm, workerBranch]"

definition landArgs :: "string \<Rightarrow> Swarm \<Rightarrow> string list" where
  "landArgs swarmID swarm =
     [''merge'', ''--no-ff'', ''-m'', ''Land swarm '' @ swarmID, Integration swarm]"

section \<open>The properties as the specification words them\<close>

text \<open>A string contains a substring: it is a prefix, the substring and a suffix.\<close>

definition hasSubstring :: "string \<Rightarrow> string \<Rightarrow> bool" where
  "hasSubstring s p = (\<exists>pre post. s = pre @ p @ post)"




text \<open>
  The deletions of worker branches: for each task with a non-empty branch name, in order,
  the local deletion and the remote deletion; nothing for a task without a branch name.
\<close>

definition workerDeletions :: "Task list \<Rightarrow> string list list" where
  "workerDeletions tasks =
     concat (map (\<lambda>task. [[''branch'', ''-D'', Branch task],
                           [''push'', ''origin'', ''--delete'', Branch task]])
               (filter (\<lambda>task. Branch task \<noteq> []) tasks))"

text \<open>
  An operation holds the lock of a swarm for its full duration: either the lock was not
  obtained, nothing else was done and that error is the result; or the first event takes the
  lock, the last event releases it, and no event in between touches a lock.
\<close>

definition lockScoped :: "string \<Rightarrow> err option \<Rightarrow> event list \<Rightarrow> bool" where
  "lockScoped swarmID r new =
     ((case r of Some e \<Rightarrow> new = [EvLock swarmID (Some e)] | None \<Rightarrow> False)
      \<or> (2 \<le> length new \<and> hd new = EvLock swarmID None \<and> last new = EvUnlock swarmID
            \<and> list_all (\<lambda>ev. \<not> isLockEvent ev) (butlast (tl new))))"

section \<open>The runs of the operations\<close>

text \<open>
  For each operation, the results and the new events it can produce: one rule per exit of
  the source function.
\<close>

inductive createPath :: "env \<Rightarrow> string \<Rightarrow> err option \<Rightarrow> event list \<Rightarrow> bool"
  for env :: env and swarmID :: string where
  cr_lock: "createPath env swarmID (Some e) [EvLock swarmID (Some e)]"
| cr_load: "createPath env swarmID (Some e)
              [EvLock swarmID None, EvLoad swarmID (Inl e), EvUnlock swarmID]"
| cr_exists: "runErr p = None \<Longrightarrow>
     createPath env swarmID (Some ErrBranchExists)
       [EvLock swarmID None, EvLoad swarmID (Inr swarm),
        EvGit [''show-ref'', ''--verify'', ''--quiet'', ''refs/heads/'' @ Integration swarm] p,
        EvUnlock swarmID]"
| cr_failed: "runErr p \<noteq> None \<Longrightarrow>
     gitRunError env [''checkout'', ''-b'', Integration swarm, BaseCommit swarm] c = Some e \<Longrightarrow>
     createPath env swarmID (Some (Errorf ''creating branch: '' e))
       [EvLock swarmID None, EvLoad swarmID (Inr swarm),
        EvGit [''show-ref'', ''--verify'', ''--quiet'', ''refs/heads/'' @ Integration swarm] p,
        EvGit [''checkout'', ''-b'', Integration swarm, BaseCommit swarm] c,
        EvUnlock swarmID]"
| cr_created: "runErr p \<noteq> None \<Longrightarrow> runErr c = None \<Longrightarrow>
     createPath env swarmID None
       [EvLock swarmID None, EvLoad swarmID (Inr swarm),
        EvGit [''show-ref'', ''--verify'', ''--quiet'', ''refs/heads/'' @ Integration swarm] p,
        EvGit [''checkout'', ''-b'', Integration swarm, BaseCommit swarm] c,
        EvGit [''push'', ''-u'', ''origin'', Integration swarm] q,
        EvUnlock swarmID]"

inductive mergePath :: "env \<Rightarrow> string \<Rightarrow> string \<Rightarrow> err option \<Rightarrow> event list \<Rightarrow> bool"
  for env :: env and swarmID :: string and workerBranch :: string where
  mp_lock: "mergePath env swarmID workerBranch (Some e) [EvLock swarmID (Some e)]"
| mp_load: "mergePath env swarmID workerBranch (Some e)
              [EvLock swarmID None, EvLoad swarmID (Inl e), EvUnlock swarmID]"
| mp_early: "list_all prelude pre \<Longrightarrow>
     mergePath env swarmID workerBranch (Some e)
       (EvLock swarmID None # EvLoad swarmID (Inr swarm) # pre @ [EvUnlock swarmID])"
| mp_merged: "list_all prelude pre \<Longrightarrow> runErr mp = None \<Longrightarrow>
     mergePath env swarmID workerBranch None
       (EvLock swarmID None # EvLoad swarmID (Inr swarm) # pre @
          [EvGit (mergeArgs workerBranch swarm) mp, EvUnlock swarmID])"
| mp_failed: "list_all prelude pre \<Longrightarrow>
     gitRunError env (mergeArgs workerBranch swarm) mp = Some e \<Longrightarrow>
     r = (if runErr dp = None \<and> fst (conflictingFilesOf env dp) \<noteq> []
          then Some e else Some (Errorf ''merging: '' e)) \<Longrightarrow>
     mergePath env swarmID workerBranch r
       (EvLock swarmID None # EvLoad swarmID (Inr swarm) # pre @
          [EvGit (mergeArgs workerBranch swarm) mp, EvGit diffUnmerged dp, EvUnlock swarmID])"

inductive landPath :: "env \<Rightarrow> string \<Rightarrow> err option \<Rightarrow> event list \<Rightarrow> bool"
  for env :: env and swarmID :: string where
  lp_lock: "landPath env swarmID (Some e) [EvLock swarmID (Some e)]"
| lp_load: "landPath env swarmID (Some e)
              [EvLock swarmID None, EvLoad swarmID (Inl e), EvUnlock swarmID]"
| lp_checkout: "gitRunError env [''checkout'', TargetBranch swarm] c = Some e \<Longrightarrow>
     landPath env swarmID (Some (Errorf (''checking out '' @ TargetBranch swarm @ '': '') e))
       [EvLock swarmID None, EvLoad swarmID (Inr swarm),
        EvGit [''checkout'', TargetBranch swarm] c, EvUnlock swarmID]"
| lp_landed: "list_all prelude pre \<Longrightarrow> runErr mp = None \<Longrightarrow>
     r = (case gitRunError env [''push'', ''origin'', TargetBranch swarm] q of
            Some e \<Rightarrow> Some (Errorf ''pushing: '' e)
          | None \<Rightarrow> None) \<Longrightarrow>
     landPath env swarmID r
       (EvLock swarmID None # EvLoad swarmID (Inr swarm) # pre @
          [EvGit (landArgs swarmID swarm) mp,
           EvGit [''push'', ''origin'', TargetBranch swarm] q, EvUnlock swarmID])"
| lp_failed: "list_all prelude pre \<Longrightarrow>
     gitRunError env (landArgs swarmID swarm) mp = Some e \<Longrightarrow>
     r = (if runErr dp = None \<and> fst (conflictingFilesOf env dp) \<noteq> []
          then Some e
          else Some (Errorf (''merging to '' @ TargetBranch swarm @ '': '') e)) \<Longrightarrow>
     landPath env swarmID r
       (EvLock swarmID None # EvLoad swarmID (Inr swarm) # pre @
          [EvGit (landArgs swarmID swarm) mp, EvGit diffUnmerged dp, EvUnlock swarmID])"

inductive cleanupPath :: "env \<Rightarrow> string \<Rightarrow> err option \<Rightarrow> event list \<Rightarrow> bool"
  for env :: env and swarmID :: string where
  cp_lock: "cleanupPath env swarmID (Some e) [EvLock swarmID (Some e)]"
| cp_load: "cleanupPath env swarmID (Some e)
              [EvLock swarmID None, EvLoad swarmID (Inl e), EvUnlock swarmID]"
| cp_cleaned: "list_all isGitEvent ws \<Longrightarrow> gitCalls ws = workerDeletions (Tasks swarm) \<Longrightarrow>
     r = gitRunError env [''branch'', ''-D'', Integration swarm] p \<Longrightarrow>
     cleanupPath env swarmID r
       (EvLock swarmID None # EvLoad swarmID (Inr swarm) #
        EvGit [''branch'', ''-D'', Integration swarm] p #
        EvGit [''push'', ''origin'', ''--delete'', Integration swarm] q #
        ws @ [EvUnlock swarmID])"

section \<open>Example environments\<close>

text \<open>
  A swarm with three tasks, the second without a branch name, and environments in which the
  lock and the load succeed and \<^verbatim>\<open>git\<close> answers from a table of argument vectors: a run that is
  not in the table succeeds with no output.
\<close>

definition swarm1 :: Swarm where
  "swarm1 = \<lparr>Integration = ''swarm/sw-1'', BaseCommit = ''abc123'', TargetBranch = ''main'',
             Tasks = [\<lparr>Branch = ''sw-1/Toast/task-1''\<rparr>, \<lparr>Branch = []\<rparr>,
                      \<lparr>Branch = ''sw-1/Nux/task-3''\<rparr>]\<rparr>"

definition procOK :: proc where
  "procOK = \<lparr>runErr = None, stdout = [], stderr = []\<rparr>"

definition procFailed :: "string \<Rightarrow> string \<Rightarrow> proc" where
  "procFailed out serr = \<lparr>runErr = Some ''exit status 1'', stdout = out, stderr = serr\<rparr>"

definition scripted :: "(string list \<times> proc) list \<Rightarrow> string list \<Rightarrow> proc" where
  "scripted table args = (case map_of table args of Some p \<Rightarrow> p | None \<Rightarrow> procOK)"

definition envOf :: "(string list \<Rightarrow> proc) \<Rightarrow> env" where
  "envOf g = \<lparr>lock_result = (\<lambda>log swarmID. None),
              load_result = (\<lambda>log swarmID. Inr swarm1),
              git_result = (\<lambda>log args. g args),
              unicodeLower = (\<lambda>s. s), unicodeTrim = (\<lambda>s. s), unicodeTrimRight = (\<lambda>s. s)\<rparr>"




definition blindRun :: "string list \<Rightarrow> proc" where
  "blindRun = scripted
     [(mergeArgs ''sw-1/Toast/task-1'' swarm1,
         procFailed ''CONFLICT (content): Merge conflict in a.go'' []),
      (landArgs ''sw-1'' swarm1,
         procFailed ''CONFLICT (content): Merge conflict in a.go'' []),
      (diffUnmerged, procFailed (''a.go'' @ [CHR 0x0A]) ''fatal: unable to read index'')]"

definition existsRun :: "string list \<Rightarrow> proc" where
  "existsRun = scripted []"



definition unreachableRun :: "string list \<Rightarrow> proc" where
  "unreachableRun = scripted
     [([''fetch'', ''origin'', ''sw-1/Toast/task-1''],
         procFailed [] ''fatal: unable to access: Could not resolve host'')]"

section \<open>Facts about the primitives\<close>

lemma HasPrefix_iff: "HasPrefix s p \<longleftrightarrow> (\<exists>post. s = p @ post)"
proof
  assume "HasPrefix s p"
  then have "s = p @ drop (length p) s"
    by (metis HasPrefix_def append_take_drop_id)
  then show "\<exists>post. s = p @ post" ..
next
  assume "\<exists>post. s = p @ post"
  then show "HasPrefix s p" by (auto simp: HasPrefix_def)
qed

lemma Contains_iff: "Contains s sub \<longleftrightarrow> hasSubstring s sub"
proof (induction s)
  case Nil
  show ?case by (auto simp: hasSubstring_def)
next
  case (Cons c cs)
  show ?case
  proof
    assume "Contains (c # cs) sub"
    then consider "HasPrefix (c # cs) sub" | "Contains cs sub" by auto
    then show "hasSubstring (c # cs) sub"
    proof cases
      case 1
      then obtain post where "c # cs = sub @ post" by (auto simp: HasPrefix_iff)
      then have "c # cs = [] @ sub @ post" by simp
      then show ?thesis unfolding hasSubstring_def by (intro exI)
    next
      case 2
      then obtain pre post where "cs = pre @ sub @ post"
        using Cons.IH by (auto simp: hasSubstring_def)
      then have "c # cs = (c # pre) @ sub @ post" by simp
      then show ?thesis unfolding hasSubstring_def by (intro exI)
    qed
  next
    assume "hasSubstring (c # cs) sub"
    then obtain pre post where eq: "c # cs = pre @ sub @ post"
      by (auto simp: hasSubstring_def)
    show "Contains (c # cs) sub"
    proof (cases pre)
      case Nil
      with eq have "HasPrefix (c # cs) sub" by (auto simp: HasPrefix_iff)
      then show ?thesis by simp
    next
      case (Cons a pre')
      with eq have "cs = pre' @ sub @ post" by simp
      then have "hasSubstring cs sub" unfolding hasSubstring_def by (intro exI)
      then show ?thesis using Cons.IH by simp
    qed
  qed
qed

lemma noPatternIn_iff: "noPatternIn s ps \<longleftrightarrow> (\<forall>p \<in> set ps. \<not> Contains s p)"
  by (induction ps) auto


lemma gitRun_eq:
  "gitRun env args log =
     (gitRunError env args (git_result env log args), log @ [EvGit args (git_result env log args)])"
  by (simp add: gitRun_def cmdRun_def Let_def)

lemma gitRunError_None [simp]: "(gitRunError env args p = None) = (runErr p = None)"
  by (simp add: gitRunError_def Let_def split: option.split)


lemma lockSwarm_D:
  "lockSwarm env swarmID log = (r, log') \<Longrightarrow> log' = log @ [EvLock swarmID r]"
  by (auto simp: lockSwarm_def Let_def)

lemma LoadSwarm_D:
  "LoadSwarm env swarmID log = (r, log') \<Longrightarrow> log' = log @ [EvLoad swarmID r]"
  by (auto simp: LoadSwarm_def Let_def)

lemma gitRun_E:
  assumes "gitRun env args log = (e, log')"
  obtains p where "log' = log @ [EvGit args p]" and "e = gitRunError env args p"
  using assms by (auto simp: gitRun_eq)

lemma getCurrentBranch_E:
  assumes "getCurrentBranch env log = (r, log')"
  obtains p where "log' = log @ [EvGit [''rev-parse'', ''--abbrev-ref'', ''HEAD''] p]"
  using assms by (auto simp: getCurrentBranch_def cmdRun_def Let_def)

lemma getConflictingFiles_E:
  assumes "getConflictingFiles env log = ((fs, ce), log')"
  obtains p where "log' = log @ [EvGit diffUnmerged p]"
    and "fs = fst (conflictingFilesOf env p)"
    and "(ce = None) = (runErr p = None)"
  using assms
  by (auto simp: getConflictingFiles_def cmdRun_def Let_def conflictingFilesOf_def
        split: option.splits if_splits)

lemma branchExists_E:
  assumes "branchExists env branch log = (b, log')"
  obtains p where
    "log' = log @ [EvGit [''show-ref'', ''--verify'', ''--quiet'', ''refs/heads/'' @ branch] p]"
    and "b = (runErr p = None)"
  using assms by (auto simp: branchExists_def gitRun_eq)

section \<open>Fetch with retry, unrolled\<close>

lemma isTransient_None [simp]: "isTransientFetchError ul None = False"
  by (simp add: isTransientFetchError_def)

lemma fetchLoop_unroll:
  "fetchLoop env remote branch 0 lastErr log =
     (let args = [''fetch'', remote, branch];
        p1 = git_result env log args;
        e1 = gitRunError env args p1;
        log1 = log @ [EvGit args p1];
        p2 = git_result env (log1 @ [EvSleep (fetchRetryDelay * 1)]) args;
        e2 = gitRunError env args p2;
        log2 = log1 @ [EvSleep (fetchRetryDelay * 1), EvGit args p2];
        p3 = git_result env (log2 @ [EvSleep (fetchRetryDelay * 2)]) args;
        e3 = gitRunError env args p3;
        log3 = log2 @ [EvSleep (fetchRetryDelay * 2), EvGit args p3]
      in (if e1 = None then (None, log1)
          else if \<not> isTransientFetchError (unicodeLower env) e1 then (e1, log1)
          else if e2 = None then (None, log2)
          else if \<not> isTransientFetchError (unicodeLower env) e2 then (e2, log2)
          else (e3, log3)))"
  by (simp add: fetchLoop.simps [of _ _ _ 0] fetchLoop.simps [of _ _ _ "Suc 0"]
        fetchLoop.simps [of _ _ _ "Suc (Suc 0)"] fetchLoop.simps [of _ _ _ "Suc (Suc (Suc 0))"]
        gitRun_eq fetchRetries_def Sleep_def Let_def del: gitRunError_None)

lemma fetchWithRetry_appends:
  "\<exists>fs. snd (fetchWithRetry env remote branch log) = log @ fs \<and> list_all fetchOrSleep fs"
  unfolding fetchWithRetry_def fetchLoop_unroll Let_def by simp

lemma fetchOrSleep_prelude: "fetchOrSleep ev \<Longrightarrow> prelude ev"
  by (cases ev) auto

lemma fetchWithRetry_E:
  assumes "fetchWithRetry env remote branch log = (e, log')"
  obtains fs where "log' = log @ fs" and "list_all prelude fs"
proof -
  from fetchWithRetry_appends [of env remote branch log] assms
  obtain fs where fs: "log' = log @ fs" and "list_all fetchOrSleep fs" by auto
  then have "list_all prelude fs"
    by (auto simp: list_all_iff fetchOrSleep_prelude)
  with fs show thesis by (rule that)
qed

lemma pathI: "log' = log @ new \<Longrightarrow> P new \<Longrightarrow> \<exists>new. log' = log @ new \<and> P new"
  by (intro exI conjI)

section \<open>Every run of an operation follows one of its paths\<close>

lemma CreateIntegrationBranch_paths:
  assumes run: "CreateIntegrationBranch env swarmID log = (r, log')"
  shows "\<exists>new. log' = log @ new \<and> createPath env swarmID r new"
proof -
  note defs = CreateIntegrationBranch_def Unlock_def Let_def
  obtain lr log1 where L: "lockSwarm env swarmID log = (lr, log1)" by force
  have l1: "log1 = log @ [EvLock swarmID lr]" using L by (rule lockSwarm_D)
  show ?thesis
  proof (cases lr)
    case (Some e)
    then have rS: "r = Some e" and tr: "log' = log @ [EvLock swarmID (Some e)]"
      using run L l1 by (auto simp: defs)
    have "createPath env swarmID r [EvLock swarmID (Some e)]"
      unfolding rS by (rule cr_lock)
    with tr show ?thesis by (rule pathI)
  next
    case lrN: None
    obtain sr log2 where S: "LoadSwarm env swarmID log1 = (sr, log2)" by force
    have l2: "log2 = log1 @ [EvLoad swarmID sr]" using S by (rule LoadSwarm_D)
    show ?thesis
    proof (cases sr)
      case (Inl e)
      then have rS: "r = Some e"
        and tr: "log' = log @ [EvLock swarmID None, EvLoad swarmID (Inl e), EvUnlock swarmID]"
        using run L lrN S l1 l2 by (auto simp: defs)
      have "createPath env swarmID r [EvLock swarmID None, EvLoad swarmID (Inl e), EvUnlock swarmID]"
        unfolding rS by (rule cr_load)
      with tr show ?thesis by (rule pathI)
    next
      case srR: (Inr swarm)
      obtain ex log3 where B: "branchExists env (Integration swarm) log2 = (ex, log3)" by force
      from B obtain p where
        l3: "log3 = log2 @ [EvGit [''show-ref'', ''--verify'', ''--quiet'',
                             ''refs/heads/'' @ Integration swarm] p]"
        and ex: "ex = (runErr p = None)" by (rule branchExists_E)
      show ?thesis
      proof (cases ex)
        case True
        then have rS: "r = Some ErrBranchExists"
          and tr: "log' = log @ [EvLock swarmID None, EvLoad swarmID (Inr swarm),
              EvGit [''show-ref'', ''--verify'', ''--quiet'', ''refs/heads/'' @ Integration swarm] p,
              EvUnlock swarmID]"
          using run L lrN S srR B l1 l2 l3 by (auto simp: defs)
        have "runErr p = None" using True ex by simp
        then have "createPath env swarmID r [EvLock swarmID None, EvLoad swarmID (Inr swarm),
              EvGit [''show-ref'', ''--verify'', ''--quiet'', ''refs/heads/'' @ Integration swarm] p,
              EvUnlock swarmID]"
          unfolding rS by (rule cr_exists)
        with tr show ?thesis by (rule pathI)
      next
        case exF: False
        then have pF: "runErr p \<noteq> None" using ex by simp
        obtain ce log4 where
          C: "gitRun env [''checkout'', ''-b'', Integration swarm, BaseCommit swarm] log3 = (ce, log4)"
          by force
        from C obtain c where
          l4: "log4 = log3 @ [EvGit [''checkout'', ''-b'', Integration swarm, BaseCommit swarm] c]"
          and ce: "ce = gitRunError env [''checkout'', ''-b'', Integration swarm, BaseCommit swarm] c"
          by (rule gitRun_E)
        show ?thesis
        proof (cases ce)
          case (Some e)
          then have rS: "r = Some (Errorf ''creating branch: '' e)"
            and tr: "log' = log @ [EvLock swarmID None, EvLoad swarmID (Inr swarm),
              EvGit [''show-ref'', ''--verify'', ''--quiet'', ''refs/heads/'' @ Integration swarm] p,
              EvGit [''checkout'', ''-b'', Integration swarm, BaseCommit swarm] c,
              EvUnlock swarmID]"
            using run L lrN S srR B exF C l1 l2 l3 l4 by (auto simp: defs)
          have "gitRunError env [''checkout'', ''-b'', Integration swarm, BaseCommit swarm] c = Some e"
            using Some ce by simp
          with pF have "createPath env swarmID r [EvLock swarmID None, EvLoad swarmID (Inr swarm),
              EvGit [''show-ref'', ''--verify'', ''--quiet'', ''refs/heads/'' @ Integration swarm] p,
              EvGit [''checkout'', ''-b'', Integration swarm, BaseCommit swarm] c,
              EvUnlock swarmID]"
            unfolding rS by (rule cr_failed)
          with tr show ?thesis by (rule pathI)
        next
          case ceN: None
          obtain pe log5 where
            P: "gitRun env [''push'', ''-u'', ''origin'', Integration swarm] log4 = (pe, log5)"
            by force
          from P obtain q where
            l5: "log5 = log4 @ [EvGit [''push'', ''-u'', ''origin'', Integration swarm] q]"
            by (rule gitRun_E)
          have cN: "runErr c = None" using ceN ce by simp
          have rS: "r = None"
            and tr: "log' = log @ [EvLock swarmID None, EvLoad swarmID (Inr swarm),
              EvGit [''show-ref'', ''--verify'', ''--quiet'', ''refs/heads/'' @ Integration swarm] p,
              EvGit [''checkout'', ''-b'', Integration swarm, BaseCommit swarm] c,
              EvGit [''push'', ''-u'', ''origin'', Integration swarm] q,
              EvUnlock swarmID]"
            using run L lrN S srR B exF C ceN P l1 l2 l3 l4 l5 by (auto simp: defs)
          from pF cN have "createPath env swarmID r [EvLock swarmID None, EvLoad swarmID (Inr swarm),
              EvGit [''show-ref'', ''--verify'', ''--quiet'', ''refs/heads/'' @ Integration swarm] p,
              EvGit [''checkout'', ''-b'', Integration swarm, BaseCommit swarm] c,
              EvGit [''push'', ''-u'', ''origin'', Integration swarm] q,
              EvUnlock swarmID]"
            unfolding rS by (rule cr_created)
          with tr show ?thesis by (rule pathI)
        qed
      qed
    qed
  qed
qed

lemma MergeToIntegration_paths:
  assumes run: "MergeToIntegration env swarmID workerBranch log = (r, log')"
  shows "\<exists>new. log' = log @ new \<and> mergePath env swarmID workerBranch r new"
proof -
  note defs = MergeToIntegration_def Unlock_def Let_def mergeArgs_def
  obtain lr log1 where L: "lockSwarm env swarmID log = (lr, log1)" by force
  have l1: "log1 = log @ [EvLock swarmID lr]" using L by (rule lockSwarm_D)
  show ?thesis
  proof (cases lr)
    case (Some e)
    then have rS: "r = Some e" and tr: "log' = log @ [EvLock swarmID (Some e)]"
      using run L l1 by (auto simp: defs)
    have "mergePath env swarmID workerBranch r [EvLock swarmID (Some e)]"
      unfolding rS by (rule mp_lock)
    with tr show ?thesis by (rule pathI)
  next
    case lrN: None
    obtain sr log2 where S: "LoadSwarm env swarmID log1 = (sr, log2)" by force
    have l2: "log2 = log1 @ [EvLoad swarmID sr]" using S by (rule LoadSwarm_D)
    show ?thesis
    proof (cases sr)
      case (Inl e)
      then have rS: "r = Some e"
        and tr: "log' = log @ [EvLock swarmID None, EvLoad swarmID (Inl e), EvUnlock swarmID]"
        using run L lrN S l1 l2 by (auto simp: defs)
      have "mergePath env swarmID workerBranch r
              [EvLock swarmID None, EvLoad swarmID (Inl e), EvUnlock swarmID]"
        unfolding rS by (rule mp_load)
      with tr show ?thesis by (rule pathI)
    next
      case srR: (Inr swarm)
      obtain cb ce log3 where B: "getCurrentBranch env log2 = ((cb, ce), log3)"
        by (metis prod.exhaust)
      from B obtain p where
        l3: "log3 = log2 @ [EvGit [''rev-parse'', ''--abbrev-ref'', ''HEAD''] p]"
        by (rule getCurrentBranch_E)
      define hd3 where "hd3 = [EvLock swarmID None, EvLoad swarmID (Inr swarm)]"
      have l3': "log3 = log @ hd3 @ [EvGit [''rev-parse'', ''--abbrev-ref'', ''HEAD''] p]"
        using l1 l2 l3 lrN srR by (simp add: hd3_def)
      show ?thesis
      proof (cases ce)
        case (Some e)
        define pre where "pre = [EvGit [''rev-parse'', ''--abbrev-ref'', ''HEAD''] p]"
        have rS: "r = Some (Errorf ''getting current branch: '' e)"
          and "log' = log3 @ [EvUnlock swarmID]"
          using run L lrN S srR B Some by (auto simp: defs)
        then have tr: "log' = log @ (EvLock swarmID None # EvLoad swarmID (Inr swarm) # pre @
                                      [EvUnlock swarmID])"
          using l3' by (simp add: pre_def hd3_def)
        have "list_all prelude pre" by (simp add: pre_def)
        then have "mergePath env swarmID workerBranch r
                     (EvLock swarmID None # EvLoad swarmID (Inr swarm) # pre @ [EvUnlock swarmID])"
          unfolding rS by (rule mp_early)
        with tr show ?thesis by (rule pathI)
      next
        case ceN: None
        obtain ke log4 where
          C: "(if cb \<noteq> Integration swarm
               then gitRun env [''checkout'', Integration swarm] log3
               else (None, log3)) = (ke, log4)" by force
        have "\<exists>cs. log4 = log3 @ cs \<and> list_all prelude cs"
        proof (cases "cb \<noteq> Integration swarm")
          case True
          with C have "gitRun env [''checkout'', Integration swarm] log3 = (ke, log4)" by simp
          then obtain c where "log4 = log3 @ [EvGit [''checkout'', Integration swarm] c]"
            by (rule gitRun_E)
          moreover have "list_all prelude [EvGit [''checkout'', Integration swarm] c]" by simp
          ultimately show ?thesis by (intro exI conjI)
        next
          case False
          with C have "log4 = log3 @ []" by simp
          moreover have "list_all prelude []" by simp
          ultimately show ?thesis by (intro exI conjI)
        qed
        then obtain cs where l4: "log4 = log3 @ cs" and cs: "list_all prelude cs" by auto
        show ?thesis
        proof (cases ke)
          case (Some e)
          define pre where "pre = EvGit [''rev-parse'', ''--abbrev-ref'', ''HEAD''] p # cs"
          have rS: "r = Some (Errorf ''checking out integration: '' e)"
            and "log' = log4 @ [EvUnlock swarmID]"
            using run L lrN S srR B ceN C Some by (auto simp: defs)
          then have tr: "log' = log @ (EvLock swarmID None # EvLoad swarmID (Inr swarm) # pre @
                                        [EvUnlock swarmID])"
            using l3' l4 by (simp add: pre_def hd3_def)
          have "list_all prelude pre"
            using cs by (simp add: pre_def)
          then have "mergePath env swarmID workerBranch r
                       (EvLock swarmID None # EvLoad swarmID (Inr swarm) # pre @ [EvUnlock swarmID])"
            unfolding rS by (rule mp_early)
          with tr show ?thesis by (rule pathI)
        next
          case keN: None
          obtain fe log5 where F: "fetchWithRetry env ''origin'' workerBranch log4 = (fe, log5)"
            by force
          from F obtain fs where l5: "log5 = log4 @ fs" and fs: "list_all prelude fs"
            by (rule fetchWithRetry_E)
          obtain me log6 where
            M: "gitRun env (mergeArgs workerBranch swarm) log5 = (me, log6)" by force
          from M obtain mp where
            l6: "log6 = log5 @ [EvGit (mergeArgs workerBranch swarm) mp]"
            and me: "me = gitRunError env (mergeArgs workerBranch swarm) mp"
            by (rule gitRun_E)
          define pre where "pre = EvGit [''rev-parse'', ''--abbrev-ref'', ''HEAD''] p # cs @ fs"
          have pre: "list_all prelude pre"
            using cs fs by (simp add: pre_def)
          have l5': "log5 = log @ hd3 @ pre"
            using l3' l4 l5 by (simp add: pre_def)
          show ?thesis
          proof (cases me)
            case meN: None
            have rN: "r = None" and "log' = log6 @ [EvUnlock swarmID]"
              using run L lrN S srR B ceN C keN F M meN by (auto simp: defs)
            then have tr: "log' = log @ (EvLock swarmID None # EvLoad swarmID (Inr swarm) # pre @
                    [EvGit (mergeArgs workerBranch swarm) mp, EvUnlock swarmID])"
              using l5' l6 by (simp add: hd3_def)
            have ok: "runErr mp = None" using meN me by simp
            have "mergePath env swarmID workerBranch r
                    (EvLock swarmID None # EvLoad swarmID (Inr swarm) # pre @
                       [EvGit (mergeArgs workerBranch swarm) mp, EvUnlock swarmID])"
              unfolding rN using pre ok by (rule mp_merged)
            with tr show ?thesis by (rule pathI)
          next
            case meS: (Some e)
            obtain cf cerr log7 where G: "getConflictingFiles env log6 = ((cf, cerr), log7)"
              by (metis prod.exhaust)
            from G obtain dp where
              l7: "log7 = log6 @ [EvGit diffUnmerged dp]"
              and cf: "cf = fst (conflictingFilesOf env dp)"
              and cerr: "(cerr = None) = (runErr dp = None)"
              by (rule getConflictingFiles_E)
            have "r = (if cerr = None \<and> length cf > 0 then Some e else Some (Errorf ''merging: '' e))"
              "log' = log7 @ [EvUnlock swarmID]"
              using run L lrN S srR B ceN C keN F M meS G by (auto simp: defs split: if_splits)
            then have tr: "log' = log @ (EvLock swarmID None # EvLoad swarmID (Inr swarm) # pre @
                    [EvGit (mergeArgs workerBranch swarm) mp, EvGit diffUnmerged dp, EvUnlock swarmID])"
                 and req: "r = (if runErr dp = None \<and> fst (conflictingFilesOf env dp) \<noteq> []
                       then Some e else Some (Errorf ''merging: '' e))"
              using l5' l6 l7 cf cerr by (simp_all add: hd3_def)
            have ge: "gitRunError env (mergeArgs workerBranch swarm) mp = Some e"
              using me meS by simp
            have "mergePath env swarmID workerBranch r
                    (EvLock swarmID None # EvLoad swarmID (Inr swarm) # pre @
                       [EvGit (mergeArgs workerBranch swarm) mp, EvGit diffUnmerged dp, EvUnlock swarmID])"
              using pre ge req by (rule mp_failed)
            with tr show ?thesis by (rule pathI)
          qed
        qed
      qed
    qed
  qed
qed

lemma LandToMain_paths:
  assumes run: "LandToMain env swarmID log = (r, log')"
  shows "\<exists>new. log' = log @ new \<and> landPath env swarmID r new"
proof -
  note defs = LandToMain_def Unlock_def Let_def landArgs_def
  obtain lr log1 where L: "lockSwarm env swarmID log = (lr, log1)" by force
  have l1: "log1 = log @ [EvLock swarmID lr]" using L by (rule lockSwarm_D)
  show ?thesis
  proof (cases lr)
    case (Some e)
    then have rS: "r = Some e" and tr: "log' = log @ [EvLock swarmID (Some e)]"
      using run L l1 by (auto simp: defs)
    have "landPath env swarmID r [EvLock swarmID (Some e)]"
      unfolding rS by (rule lp_lock)
    with tr show ?thesis by (rule pathI)
  next
    case lrN: None
    obtain sr log2 where S: "LoadSwarm env swarmID log1 = (sr, log2)" by force
    have l2: "log2 = log1 @ [EvLoad swarmID sr]" using S by (rule LoadSwarm_D)
    show ?thesis
    proof (cases sr)
      case (Inl e)
      then have rS: "r = Some e"
        and tr: "log' = log @ [EvLock swarmID None, EvLoad swarmID (Inl e), EvUnlock swarmID]"
        using run L lrN S l1 l2 by (auto simp: defs)
      have "landPath env swarmID r [EvLock swarmID None, EvLoad swarmID (Inl e), EvUnlock swarmID]"
        unfolding rS by (rule lp_load)
      with tr show ?thesis by (rule pathI)
    next
      case srR: (Inr swarm)
      define hd2 where "hd2 = [EvLock swarmID None, EvLoad swarmID (Inr swarm)]"
      have l2': "log2 = log @ hd2" using l1 l2 lrN srR by (simp add: hd2_def)
      obtain ke log3 where
        C: "gitRun env [''checkout'', TargetBranch swarm] log2 = (ke, log3)" by force
      from C obtain c where
        l3: "log3 = log2 @ [EvGit [''checkout'', TargetBranch swarm] c]"
        and ke: "ke = gitRunError env [''checkout'', TargetBranch swarm] c"
        by (rule gitRun_E)
      show ?thesis
      proof (cases ke)
        case (Some e)
        have rS: "r = Some (Errorf (''checking out '' @ TargetBranch swarm @ '': '') e)"
          and "log' = log3 @ [EvUnlock swarmID]"
          using run L lrN S srR C Some by (auto simp: defs)
        then have tr: "log' = log @ [EvLock swarmID None, EvLoad swarmID (Inr swarm),
                          EvGit [''checkout'', TargetBranch swarm] c, EvUnlock swarmID]"
          using l2' l3 by (simp add: hd2_def)
        have "gitRunError env [''checkout'', TargetBranch swarm] c = Some e"
          using Some ke by simp
        then have "landPath env swarmID r [EvLock swarmID None, EvLoad swarmID (Inr swarm),
                          EvGit [''checkout'', TargetBranch swarm] c, EvUnlock swarmID]"
          unfolding rS by (rule lp_checkout)
        with tr show ?thesis by (rule pathI)
      next
        case keN: None
        obtain fe log4 where F: "fetchWithRetry env ''origin'' (TargetBranch swarm) log3 = (fe, log4)"
          by force
        from F obtain fs where l4: "log4 = log3 @ fs" and fs: "list_all prelude fs"
          by (rule fetchWithRetry_E)
        obtain me log5 where
          M: "gitRun env (landArgs swarmID swarm) log4 = (me, log5)" by force
        from M obtain mp where
          l5: "log5 = log4 @ [EvGit (landArgs swarmID swarm) mp]"
          and me: "me = gitRunError env (landArgs swarmID swarm) mp"
          by (rule gitRun_E)
        define pre where "pre = EvGit [''checkout'', TargetBranch swarm] c # fs"
        have pre: "list_all prelude pre"
          using fs by (simp add: pre_def)
        have l4': "log4 = log @ hd2 @ pre"
          using l2' l3 l4 by (simp add: pre_def)
        show ?thesis
        proof (cases me)
          case meN: None
          obtain pe log6 where
            P: "gitRun env [''push'', ''origin'', TargetBranch swarm] log5 = (pe, log6)" by force
          from P obtain q where
            l6: "log6 = log5 @ [EvGit [''push'', ''origin'', TargetBranch swarm] q]"
            and pe: "pe = gitRunError env [''push'', ''origin'', TargetBranch swarm] q"
            by (rule gitRun_E)
          have "r = (case pe of Some e \<Rightarrow> Some (Errorf ''pushing: '' e) | None \<Rightarrow> None)"
            and "log' = log6 @ [EvUnlock swarmID]"
            using run L lrN S srR C keN F M meN P
            by (auto simp: defs split: option.splits)
          then have req: "r = (case gitRunError env [''push'', ''origin'', TargetBranch swarm] q of
                                 Some e \<Rightarrow> Some (Errorf ''pushing: '' e) | None \<Rightarrow> None)"
            and tr: "log' = log @ (EvLock swarmID None # EvLoad swarmID (Inr swarm) # pre @
                    [EvGit (landArgs swarmID swarm) mp,
                     EvGit [''push'', ''origin'', TargetBranch swarm] q, EvUnlock swarmID])"
            using l4' l5 l6 pe by (simp_all add: hd2_def)
          have ok: "runErr mp = None" using meN me by simp
          have "landPath env swarmID r
                  (EvLock swarmID None # EvLoad swarmID (Inr swarm) # pre @
                    [EvGit (landArgs swarmID swarm) mp,
                     EvGit [''push'', ''origin'', TargetBranch swarm] q, EvUnlock swarmID])"
            using pre ok req by (rule lp_landed)
          with tr show ?thesis by (rule pathI)
        next
          case meS: (Some e)
          obtain cf cerr log6 where G: "getConflictingFiles env log5 = ((cf, cerr), log6)"
            by (metis prod.exhaust)
          from G obtain dp where
            l6: "log6 = log5 @ [EvGit diffUnmerged dp]"
            and cf: "cf = fst (conflictingFilesOf env dp)"
            and cerr: "(cerr = None) = (runErr dp = None)"
            by (rule getConflictingFiles_E)
          have "r = (if cerr = None \<and> length cf > 0 then Some e
                     else Some (Errorf (''merging to '' @ TargetBranch swarm @ '': '') e))"
            "log' = log6 @ [EvUnlock swarmID]"
            using run L lrN S srR C keN F M meS G by (auto simp: defs split: if_splits)
          then have tr: "log' = log @ (EvLock swarmID None # EvLoad swarmID (Inr swarm) # pre @
                  [EvGit (landArgs swarmID swarm) mp, EvGit diffUnmerged dp, EvUnlock swarmID])"
               and req: "r = (if runErr dp = None \<and> fst (conflictingFilesOf env dp) \<noteq> []
                     then Some e
                     else Some (Errorf (''merging to '' @ TargetBranch swarm @ '': '') e))"
            using l4' l5 l6 cf cerr by (simp_all add: hd2_def)
          have ge: "gitRunError env (landArgs swarmID swarm) mp = Some e"
            using me meS by simp
          have "landPath env swarmID r
                  (EvLock swarmID None # EvLoad swarmID (Inr swarm) # pre @
                     [EvGit (landArgs swarmID swarm) mp, EvGit diffUnmerged dp, EvUnlock swarmID])"
            using pre ge req by (rule lp_failed)
          with tr show ?thesis by (rule pathI)
        qed
      qed
    qed
  qed
qed

lemma workerDeletions_Cons:
  "workerDeletions (task # tasks) =
     (if Branch task \<noteq> []
      then [''branch'', ''-D'', Branch task] # [''push'', ''origin'', ''--delete'', Branch task] #
           workerDeletions tasks
      else workerDeletions tasks)"
  by (simp add: workerDeletions_def)

lemma deleteWorkerBranches_appends:
  "\<exists>ws. deleteWorkerBranches env tasks log = log @ ws
        \<and> list_all isGitEvent ws \<and> gitCalls ws = workerDeletions tasks"
proof (induction tasks arbitrary: log)
  case Nil
  have "deleteWorkerBranches env [] log = log @ []" by simp
  moreover have "list_all isGitEvent []" by simp
  moreover have "gitCalls [] = workerDeletions []" by (simp add: workerDeletions_def)
  ultimately show ?case by (intro exI conjI)
next
  case (Cons task tasks)
  show ?case
  proof (cases "Branch task \<noteq> []")
    case False
    then have "deleteWorkerBranches env (task # tasks) log = deleteWorkerBranches env tasks log"
      by simp
    with False Cons.IH [of log] show ?thesis by (auto simp: workerDeletions_Cons)
  next
    case True
    define a where "a = EvGit [''branch'', ''-D'', Branch task]
                          (git_result env log [''branch'', ''-D'', Branch task])"
    define b where "b = EvGit [''push'', ''origin'', ''--delete'', Branch task]
                          (git_result env (log @ [a]) [''push'', ''origin'', ''--delete'', Branch task])"
    have step: "deleteWorkerBranches env (task # tasks) log =
                deleteWorkerBranches env tasks (log @ [a, b])"
      using True by (simp add: gitRun_eq a_def b_def)
    from Cons.IH [of "log @ [a, b]"] obtain ws where
      ws: "deleteWorkerBranches env tasks (log @ [a, b]) = (log @ [a, b]) @ ws"
      and g: "list_all isGitEvent ws" and c: "gitCalls ws = workerDeletions tasks" by auto
    have "deleteWorkerBranches env (task # tasks) log = log @ (a # b # ws)"
      using step ws by simp
    moreover have "list_all isGitEvent (a # b # ws)"
      using g by (simp add: a_def b_def)
    moreover have "gitCalls (a # b # ws) = workerDeletions (task # tasks)"
      using c True by (simp add: a_def b_def workerDeletions_Cons)
    ultimately show ?thesis by (intro exI conjI)
  qed
qed

lemma CleanupBranches_paths:
  assumes run: "CleanupBranches env swarmID log = (r, log')"
  shows "\<exists>new. log' = log @ new \<and> cleanupPath env swarmID r new"
proof -
  note defs = CleanupBranches_def Unlock_def Let_def
  obtain lr log1 where L: "lockSwarm env swarmID log = (lr, log1)" by force
  have l1: "log1 = log @ [EvLock swarmID lr]" using L by (rule lockSwarm_D)
  show ?thesis
  proof (cases lr)
    case (Some e)
    then have rS: "r = Some e" and tr: "log' = log @ [EvLock swarmID (Some e)]"
      using run L l1 by (auto simp: defs)
    have "cleanupPath env swarmID r [EvLock swarmID (Some e)]"
      unfolding rS by (rule cp_lock)
    with tr show ?thesis by (rule pathI)
  next
    case lrN: None
    obtain sr log2 where S: "LoadSwarm env swarmID log1 = (sr, log2)" by force
    have l2: "log2 = log1 @ [EvLoad swarmID sr]" using S by (rule LoadSwarm_D)
    show ?thesis
    proof (cases sr)
      case (Inl e)
      then have rS: "r = Some e"
        and tr: "log' = log @ [EvLock swarmID None, EvLoad swarmID (Inl e), EvUnlock swarmID]"
        using run L lrN S l1 l2 by (auto simp: defs)
      have "cleanupPath env swarmID r [EvLock swarmID None, EvLoad swarmID (Inl e), EvUnlock swarmID]"
        unfolding rS by (rule cp_load)
      with tr show ?thesis by (rule pathI)
    next
      case srR: (Inr swarm)
      obtain de log3 where
        D: "gitRun env [''branch'', ''-D'', Integration swarm] log2 = (de, log3)" by force
      from D obtain p where
        l3: "log3 = log2 @ [EvGit [''branch'', ''-D'', Integration swarm] p]"
        and de: "de = gitRunError env [''branch'', ''-D'', Integration swarm] p"
        by (rule gitRun_E)
      obtain qe log4 where
        Q: "gitRun env [''push'', ''origin'', ''--delete'', Integration swarm] log3 = (qe, log4)"
        by force
      from Q obtain q where
        l4: "log4 = log3 @ [EvGit [''push'', ''origin'', ''--delete'', Integration swarm] q]"
        by (rule gitRun_E)
      from deleteWorkerBranches_appends [of env "Tasks swarm" log4] obtain ws where
        l5: "deleteWorkerBranches env (Tasks swarm) log4 = log4 @ ws"
        and g: "list_all isGitEvent ws" and c: "gitCalls ws = workerDeletions (Tasks swarm)"
        by auto
      have "r = de" and "log' = deleteWorkerBranches env (Tasks swarm) log4 @ [EvUnlock swarmID]"
        using run L lrN S srR D Q by (auto simp: defs)
      then have req: "r = gitRunError env [''branch'', ''-D'', Integration swarm] p"
        and tr: "log' = log @ (EvLock swarmID None # EvLoad swarmID (Inr swarm) #
                   EvGit [''branch'', ''-D'', Integration swarm] p #
                   EvGit [''push'', ''origin'', ''--delete'', Integration swarm] q #
                   ws @ [EvUnlock swarmID])"
        using de l1 l2 l3 l4 l5 lrN srR by simp_all
      have "cleanupPath env swarmID r (EvLock swarmID None # EvLoad swarmID (Inr swarm) #
                   EvGit [''branch'', ''-D'', Integration swarm] p #
                   EvGit [''push'', ''origin'', ''--delete'', Integration swarm] q #
                   ws @ [EvUnlock swarmID])"
        using g c req by (rule cp_cleaned)
      with tr show ?thesis by (rule pathI)
    qed
  qed
qed


section \<open>What the listing of unmerged paths yields\<close>











lemma conflictingFilesOf_failed: "runErr p \<noteq> None \<Longrightarrow> fst (conflictingFilesOf env p) = []"
  by (auto simp: conflictingFilesOf_def)








section \<open>Merge conflicts\<close>

lemma prelude_not_merge: "prelude (EvGit (''merge'' # margs) mp) = False"
  by simp

lemma prelude_not_diff: "prelude (EvGit diffUnmerged dp) = False"
  by (simp add: diffUnmerged_def)

lemma merge_not_in_prelude:
  "list_all prelude pre \<Longrightarrow> EvGit (''merge'' # margs) mp \<notin> set pre"
  by (auto simp: list_all_iff)

lemma diff_not_in_prelude:
  "list_all prelude pre \<Longrightarrow> EvGit diffUnmerged dp \<notin> set pre"
  by (auto simp: list_all_iff diffUnmerged_def)

lemma load_not_in_prelude:
  "list_all prelude pre \<Longrightarrow> EvLoad swarmID x \<notin> set pre"
  by (auto simp: list_all_iff)



text \<open>
  C9. In \<^verbatim>\<open>MergeToIntegration\<close> and in \<^verbatim>\<open>LandToMain\<close>, when the merge failed and the command that
  lists the unmerged paths failed too, the result is the wrapped merge error, whatever that
  command printed: a conflict then looks like any other merge failure.
\<close>

theorem conflict_listing_failure_is_wrapped:
  "(MergeToIntegration env swarmID workerBranch log = (r, log @ new)
      \<and> EvGit (''merge'' # margs) mp \<in> set new \<and> runErr mp \<noteq> None
      \<and> EvGit diffUnmerged dp \<in> set new \<and> runErr dp \<noteq> None
    \<longrightarrow> (\<exists>e. gitRunError env (''merge'' # margs) mp = Some e
            \<and> r = Some (Errorf ''merging: '' e)))
   \<and> (LandToMain env swarmID log = (r', log @ new')
      \<and> EvLoad swarmID (Inr swarm) \<in> set new'
      \<and> EvGit (''merge'' # margs') mp' \<in> set new' \<and> runErr mp' \<noteq> None
      \<and> EvGit diffUnmerged dp' \<in> set new' \<and> runErr dp' \<noteq> None
    \<longrightarrow> (\<exists>e. gitRunError env (''merge'' # margs') mp' = Some e
            \<and> r' = Some (Errorf (''merging to '' @ TargetBranch swarm @ '': '') e)))"
proof (intro conjI impI)
  assume a: "MergeToIntegration env swarmID workerBranch log = (r, log @ new)
      \<and> EvGit (''merge'' # margs) mp \<in> set new \<and> runErr mp \<noteq> None
      \<and> EvGit diffUnmerged dp \<in> set new \<and> runErr dp \<noteq> None"
  then have run: "MergeToIntegration env swarmID workerBranch log = (r, log @ new)"
    and merge: "EvGit (''merge'' # margs) mp \<in> set new" and failed: "runErr mp \<noteq> None"
    and diff: "EvGit diffUnmerged dp \<in> set new" and dfailed: "runErr dp \<noteq> None"
    by simp_all
  from MergeToIntegration_paths [OF run]
  have "mergePath env swarmID workerBranch r new" by simp
  then show "\<exists>e. gitRunError env (''merge'' # margs) mp = Some e
            \<and> r = Some (Errorf ''merging: '' e)"
  proof (cases rule: mergePath.cases)
    case (mp_lock e)
    with merge show ?thesis by simp
  next
    case (mp_load e)
    with merge show ?thesis by simp
  next
    case (mp_early pre e swarm)
    with merge merge_not_in_prelude [of pre margs mp] show ?thesis by simp
  next
    case (mp_merged pre mp' swarm)
    with merge failed merge_not_in_prelude [of pre margs mp] show ?thesis
      by (auto simp: mergeArgs_def)
  next
    case (mp_failed pre swarm mp'' e dp'')
    from mp_failed(1) merge merge_not_in_prelude [OF mp_failed(2), of margs mp]
    have eq: "''merge'' # margs = mergeArgs workerBranch swarm" "mp = mp''"
      by (auto simp: mergeArgs_def diffUnmerged_def)
    from mp_failed(1) diff diff_not_in_prelude [OF mp_failed(2), of dp]
    have "dp = dp''"
      by (auto simp: mergeArgs_def diffUnmerged_def)
    with mp_failed(3,4) eq dfailed show ?thesis by simp
  qed
next
  assume a: "LandToMain env swarmID log = (r', log @ new')
      \<and> EvLoad swarmID (Inr swarm) \<in> set new'
      \<and> EvGit (''merge'' # margs') mp' \<in> set new' \<and> runErr mp' \<noteq> None
      \<and> EvGit diffUnmerged dp' \<in> set new' \<and> runErr dp' \<noteq> None"
  then have run: "LandToMain env swarmID log = (r', log @ new')"
    and load: "EvLoad swarmID (Inr swarm) \<in> set new'"
    and merge: "EvGit (''merge'' # margs') mp' \<in> set new'" and failed: "runErr mp' \<noteq> None"
    and diff: "EvGit diffUnmerged dp' \<in> set new'" and dfailed: "runErr dp' \<noteq> None"
    by simp_all
  from LandToMain_paths [OF run]
  have "landPath env swarmID r' new'" by simp
  then show "\<exists>e. gitRunError env (''merge'' # margs') mp' = Some e
            \<and> r' = Some (Errorf (''merging to '' @ TargetBranch swarm @ '': '') e)"
  proof (cases rule: landPath.cases)
    case (lp_lock e)
    with merge show ?thesis by simp
  next
    case (lp_load e)
    with merge show ?thesis by simp
  next
    case (lp_checkout sw c e)
    with merge show ?thesis by simp
  next
    case (lp_landed pre mp'' q sw)
    with merge failed merge_not_in_prelude [of pre margs' mp'] show ?thesis
      by (auto simp: landArgs_def)
  next
    case (lp_failed pre sw mp'' e dp'')
    from lp_failed(1) merge merge_not_in_prelude [OF lp_failed(2), of margs' mp']
    have eq: "''merge'' # margs' = landArgs swarmID sw" "mp' = mp''"
      by (auto simp: landArgs_def diffUnmerged_def)
    from lp_failed(1) diff diff_not_in_prelude [OF lp_failed(2), of dp']
    have "dp' = dp''"
      by (auto simp: landArgs_def diffUnmerged_def)
    moreover from lp_failed(1) load load_not_in_prelude [OF lp_failed(2), of swarmID "Inr swarm"]
    have "sw = swarm" by auto
    ultimately show ?thesis using lp_failed(3,4) eq dfailed by simp
  qed
qed

theorem conflict_listing_failure_is_wrapped_witness:
  "(EvGit (''merge'' # tl (mergeArgs ''sw-1/Toast/task-1'' swarm1))
        (procFailed ''CONFLICT (content): Merge conflict in a.go'' [])
      \<in> set (snd (MergeToIntegration (envOf blindRun) ''sw-1'' ''sw-1/Toast/task-1'' []))
    \<and> EvGit diffUnmerged (procFailed (''a.go'' @ [CHR 0x0A]) ''fatal: unable to read index'')
      \<in> set (snd (MergeToIntegration (envOf blindRun) ''sw-1'' ''sw-1/Toast/task-1'' [])))
   \<and> fst (MergeToIntegration (envOf blindRun) ''sw-1'' ''sw-1/Toast/task-1'' []) =
       Some (Errorf ''merging: ''
          (SwarmGitError ''merge'' ''CONFLICT (content): Merge conflict in a.go'' []
             (Some (ExecError ''exit status 1''))))
   \<and> (EvLoad ''sw-1'' (Inr swarm1) \<in> set (snd (LandToMain (envOf blindRun) ''sw-1'' []))
    \<and> EvGit (''merge'' # tl (landArgs ''sw-1'' swarm1))
        (procFailed ''CONFLICT (content): Merge conflict in a.go'' [])
      \<in> set (snd (LandToMain (envOf blindRun) ''sw-1'' []))
    \<and> EvGit diffUnmerged (procFailed (''a.go'' @ [CHR 0x0A]) ''fatal: unable to read index'')
      \<in> set (snd (LandToMain (envOf blindRun) ''sw-1'' [])))
   \<and> fst (LandToMain (envOf blindRun) ''sw-1'' []) =
       Some (Errorf ''merging to main: ''
          (SwarmGitError ''merge'' ''CONFLICT (content): Merge conflict in a.go'' []
             (Some (ExecError ''exit status 1''))))"
proof -
  let ?m = "MergeToIntegration (envOf blindRun) ''sw-1'' ''sw-1/Toast/task-1'' []"
  let ?l = "LandToMain (envOf blindRun) ''sw-1'' []"
  let ?mp = "procFailed ''CONFLICT (content): Merge conflict in a.go'' []"
  let ?dp = "procFailed (''a.go'' @ [CHR 0x0A]) ''fatal: unable to read index''"
  have runm: "?m = (fst ?m, [] @ snd ?m)" by simp
  have mm: "EvGit (''merge'' # tl (mergeArgs ''sw-1/Toast/task-1'' swarm1)) ?mp \<in> set (snd ?m)"
    by code_simp
  have dm: "EvGit diffUnmerged ?dp \<in> set (snd ?m)" by code_simp
  have fm: "runErr ?mp \<noteq> None" by code_simp
  have fd: "runErr ?dp \<noteq> None" by code_simp
  have hm: "?m = (fst ?m, [] @ snd ?m)
      \<and> EvGit (''merge'' # tl (mergeArgs ''sw-1/Toast/task-1'' swarm1)) ?mp \<in> set (snd ?m)
      \<and> runErr ?mp \<noteq> None
      \<and> EvGit diffUnmerged ?dp \<in> set (snd ?m) \<and> runErr ?dp \<noteq> None"
    using runm mm fm dm fd by (intro conjI)
  from conflict_listing_failure_is_wrapped [THEN conjunct1, THEN mp, OF hm]
  obtain e where e: "gitRunError (envOf blindRun) (''merge'' # tl (mergeArgs ''sw-1/Toast/task-1'' swarm1)) ?mp
                       = Some e"
    and rm: "fst ?m = Some (Errorf ''merging: '' e)" by (elim exE conjE)
  have "gitRunError (envOf blindRun) (''merge'' # tl (mergeArgs ''sw-1/Toast/task-1'' swarm1)) ?mp =
          Some (SwarmGitError ''merge'' ''CONFLICT (content): Merge conflict in a.go'' []
             (Some (ExecError ''exit status 1'')))" by code_simp
  with e rm have vm: "fst ?m = Some (Errorf ''merging: ''
          (SwarmGitError ''merge'' ''CONFLICT (content): Merge conflict in a.go'' []
             (Some (ExecError ''exit status 1''))))" by simp
  have runl: "?l = (fst ?l, [] @ snd ?l)" by simp
  have ll: "EvLoad ''sw-1'' (Inr swarm1) \<in> set (snd ?l)" by code_simp
  have ml: "EvGit (''merge'' # tl (landArgs ''sw-1'' swarm1)) ?mp \<in> set (snd ?l)" by code_simp
  have dl: "EvGit diffUnmerged ?dp \<in> set (snd ?l)" by code_simp
  have hl: "?l = (fst ?l, [] @ snd ?l)
      \<and> EvLoad ''sw-1'' (Inr swarm1) \<in> set (snd ?l)
      \<and> EvGit (''merge'' # tl (landArgs ''sw-1'' swarm1)) ?mp \<in> set (snd ?l)
      \<and> runErr ?mp \<noteq> None
      \<and> EvGit diffUnmerged ?dp \<in> set (snd ?l) \<and> runErr ?dp \<noteq> None"
    using runl ll ml fm dl fd by (intro conjI)
  from conflict_listing_failure_is_wrapped [THEN conjunct2, THEN mp, OF hl]
  obtain e' where e': "gitRunError (envOf blindRun) (''merge'' # tl (landArgs ''sw-1'' swarm1)) ?mp
                       = Some e'"
    and rl: "fst ?l = Some (Errorf (''merging to '' @ TargetBranch swarm1 @ '': '') e')"
    by (elim exE conjE)
  have "gitRunError (envOf blindRun) (''merge'' # tl (landArgs ''sw-1'' swarm1)) ?mp =
          Some (SwarmGitError ''merge'' ''CONFLICT (content): Merge conflict in a.go'' []
             (Some (ExecError ''exit status 1'')))" by code_simp
  moreover have "''merging to '' @ TargetBranch swarm1 @ '': '' = ''merging to main: ''" by code_simp
  ultimately have vl: "fst ?l = Some (Errorf ''merging to main: ''
          (SwarmGitError ''merge'' ''CONFLICT (content): Merge conflict in a.go'' []
             (Some (ExecError ''exit status 1''))))" using e' rl by simp
  from mm dm vm ll ml dl vl show ?thesis by (intro conjI)
qed

section \<open>The classifier and the retry loop\<close>

text \<open>
  C2. \<^verbatim>\<open>isTransientFetchError\<close> answers "not transient" exactly for \<^verbatim>\<open>nil\<close> and for an error that is
  or wraps a \<^verbatim>\<open>SwarmGitError\<close> whose lowercased standard error contains one of the five permanent
  patterns. Every other error is transient: a \<^verbatim>\<open>SwarmGitError\<close> without those patterns, such as
  "Could not resolve host" or "the remote end hung up unexpectedly", and any error that is not
  a \<^verbatim>\<open>SwarmGitError\<close>.
\<close>

theorem isTransientFetchError_classification:
  "(\<not> isTransientFetchError ul e) =
     (e = None \<or>
      (\<exists>x gitErr. e = Some x \<and> errorsAs x = Some gitErr \<and>
         (hasSubstring (ToLower ul (Stderr gitErr)) ''couldn't find remote ref'' \<or>
          hasSubstring (ToLower ul (Stderr gitErr)) ''not found'' \<or>
          hasSubstring (ToLower ul (Stderr gitErr)) ''does not appear to be a git repository'' \<or>
          hasSubstring (ToLower ul (Stderr gitErr)) ''permission denied'' \<or>
          hasSubstring (ToLower ul (Stderr gitErr)) ''authentication failed'')))
   \<and> isTransientFetchError ul
        (Some (SwarmGitError ''fetch'' [] ''fatal: unable to access: Could not resolve host'' None))
   \<and> isTransientFetchError ul
        (Some (SwarmGitError ''fetch'' [] ''fatal: the remote end hung up unexpectedly'' None))
   \<and> isTransientFetchError ul (Some (PlainError ''some other error''))
   \<and> \<not> isTransientFetchError ul
        (Some (SwarmGitError ''fetch'' [] ''fatal: couldn't find remote ref some-branch'' None))
   \<and> \<not> isTransientFetchError ul
        (Some (SwarmGitError ''fetch'' [] ''Permission denied (publickey)'' None))
   \<and> \<not> isTransientFetchError ul
        (Some (Errorf ''fetching: ''
           (SwarmGitError ''fetch'' [] ''Authentication failed for origin'' None)))
   \<and> \<not> isTransientFetchError ul
        (Some (SwarmGitError ''fetch'' [] ''does not appear to be a git repository'' None))
   \<and> \<not> isTransientFetchError ul None"
proof -
  have general: "(\<not> isTransientFetchError ul e) =
     (e = None \<or>
      (\<exists>x gitErr. e = Some x \<and> errorsAs x = Some gitErr \<and>
         (hasSubstring (ToLower ul (Stderr gitErr)) ''couldn't find remote ref'' \<or>
          hasSubstring (ToLower ul (Stderr gitErr)) ''not found'' \<or>
          hasSubstring (ToLower ul (Stderr gitErr)) ''does not appear to be a git repository'' \<or>
          hasSubstring (ToLower ul (Stderr gitErr)) ''permission denied'' \<or>
          hasSubstring (ToLower ul (Stderr gitErr)) ''authentication failed'')))"
    by (cases e)
       (auto simp: isTransientFetchError_def noPatternIn_iff Contains_iff permanentPatterns_def
             split: option.splits)
  have t1: "isTransientFetchError ul
        (Some (SwarmGitError ''fetch'' [] ''fatal: unable to access: Could not resolve host'' None))"
    by code_simp
  have t2: "isTransientFetchError ul
        (Some (SwarmGitError ''fetch'' [] ''fatal: the remote end hung up unexpectedly'' None))"
    by code_simp
  have t3: "isTransientFetchError ul (Some (PlainError ''some other error''))"
    by code_simp
  have p1: "\<not> isTransientFetchError ul
        (Some (SwarmGitError ''fetch'' [] ''fatal: couldn't find remote ref some-branch'' None))"
    by code_simp
  have p2: "\<not> isTransientFetchError ul
        (Some (SwarmGitError ''fetch'' [] ''Permission denied (publickey)'' None))"
    by code_simp
  have p3: "\<not> isTransientFetchError ul
        (Some (Errorf ''fetching: ''
           (SwarmGitError ''fetch'' [] ''Authentication failed for origin'' None)))"
    by code_simp
  have p4: "\<not> isTransientFetchError ul
        (Some (SwarmGitError ''fetch'' [] ''does not appear to be a git repository'' None))"
    by code_simp
  have p5: "\<not> isTransientFetchError ul None" by simp
  from general t1 t2 t3 p1 p2 p3 p4 p5 show ?thesis by (intro conjI)
qed

text \<open>
  C3. \<^verbatim>\<open>fetchWithRetry\<close> runs the fetch at most three times. A success, or a failure the
  classifier judges permanent, ends it at once with that result, with no further attempt and
  no further sleep. When the first two attempts fail with a transient error, the third attempt
  is the last and its error is the result. The sleep after the first attempt is the base delay
  and the sleep after the second is twice the base delay, and there is none after the third.
\<close>

theorem fetchWithRetry_attempts:
  "(let args = [''fetch'', remote, branch];
        p1 = git_result env log args;
        e1 = gitRunError env args p1;
        log1 = log @ [EvGit args p1];
        p2 = git_result env (log1 @ [EvSleep (fetchRetryDelay * 1)]) args;
        e2 = gitRunError env args p2;
        log2 = log1 @ [EvSleep (fetchRetryDelay * 1), EvGit args p2];
        p3 = git_result env (log2 @ [EvSleep (fetchRetryDelay * 2)]) args;
        e3 = gitRunError env args p3;
        log3 = log2 @ [EvSleep (fetchRetryDelay * 2), EvGit args p3]
    in fetchWithRetry env remote branch log =
         (if e1 = None then (None, log1)
          else if \<not> isTransientFetchError (unicodeLower env) e1 then (e1, log1)
          else if e2 = None then (None, log2)
          else if \<not> isTransientFetchError (unicodeLower env) e2 then (e2, log2)
          else (e3, log3))
       \<and> gitCalls (newEvents log (fetchWithRetry env remote branch log)) =
         (if e1 = None \<or> \<not> isTransientFetchError (unicodeLower env) e1 then [args]
          else if e2 = None \<or> \<not> isTransientFetchError (unicodeLower env) e2 then [args, args]
          else [args, args, args]))
   \<and> fetchRetryDelay * 1 < fetchRetryDelay * 2
   \<and> length (gitCalls (newEvents log (fetchWithRetry env remote branch log))) \<le> 3"
proof -
  have eq: "fetchWithRetry env remote branch log =
     (let args = [''fetch'', remote, branch];
        p1 = git_result env log args;
        e1 = gitRunError env args p1;
        log1 = log @ [EvGit args p1];
        p2 = git_result env (log1 @ [EvSleep (fetchRetryDelay * 1)]) args;
        e2 = gitRunError env args p2;
        log2 = log1 @ [EvSleep (fetchRetryDelay * 1), EvGit args p2];
        p3 = git_result env (log2 @ [EvSleep (fetchRetryDelay * 2)]) args;
        e3 = gitRunError env args p3;
        log3 = log2 @ [EvSleep (fetchRetryDelay * 2), EvGit args p3]
      in (if e1 = None then (None, log1)
          else if \<not> isTransientFetchError (unicodeLower env) e1 then (e1, log1)
          else if e2 = None then (None, log2)
          else if \<not> isTransientFetchError (unicodeLower env) e2 then (e2, log2)
          else (e3, log3)))"
    unfolding fetchWithRetry_def by (rule fetchLoop_unroll)
  have delay: "fetchRetryDelay * 1 < fetchRetryDelay * 2"
    by (simp add: fetchRetryDelay_def)
  have count: "length (gitCalls (newEvents log (fetchWithRetry env remote branch log))) \<le> 3"
    by (simp add: eq Let_def newEvents_def)
  have calls: "gitCalls (newEvents log (fetchWithRetry env remote branch log)) =
     (let args = [''fetch'', remote, branch];
        p1 = git_result env log args;
        e1 = gitRunError env args p1;
        log1 = log @ [EvGit args p1];
        p2 = git_result env (log1 @ [EvSleep (fetchRetryDelay * 1)]) args;
        e2 = gitRunError env args p2
      in (if e1 = None \<or> \<not> isTransientFetchError (unicodeLower env) e1 then [args]
          else if e2 = None \<or> \<not> isTransientFetchError (unicodeLower env) e2 then [args, args]
          else [args, args, args]))"
    by (simp add: eq Let_def newEvents_def)
  show ?thesis
    using eq delay count calls by (simp add: Let_def)
qed

text \<open>
  A remote that cannot be reached: three fetches, a sleep of two seconds and one of four
  seconds between them, and the error of the third fetch.
\<close>

lemma fetchWithRetry_unreachable_example:
  "fetchWithRetry (envOf unreachableRun) ''origin'' ''sw-1/Toast/task-1'' [] =
     (Some (SwarmGitError ''fetch'' [] ''fatal: unable to access: Could not resolve host''
              (Some (ExecError ''exit status 1''))),
      [EvGit [''fetch'', ''origin'', ''sw-1/Toast/task-1'']
         (procFailed [] ''fatal: unable to access: Could not resolve host''),
       EvSleep 2000000000,
       EvGit [''fetch'', ''origin'', ''sw-1/Toast/task-1'']
         (procFailed [] ''fatal: unable to access: Could not resolve host''),
       EvSleep 4000000000,
       EvGit [''fetch'', ''origin'', ''sw-1/Toast/task-1'']
         (procFailed [] ''fatal: unable to access: Could not resolve host'')])"
  by code_simp

section \<open>Creating the integration branch\<close>



section \<open>Cleaning up\<close>









section \<open>The swarm lock\<close>

lemma prelude_not_lock: "list_all prelude pre \<Longrightarrow> list_all (\<lambda>ev. \<not> isLockEvent ev) pre"
proof -
  have "prelude ev \<Longrightarrow> \<not> isLockEvent ev" for ev by (cases ev) auto
  then show "list_all prelude pre \<Longrightarrow> list_all (\<lambda>ev. \<not> isLockEvent ev) pre"
    by (auto simp: list_all_iff)
qed

lemma git_not_lock: "list_all isGitEvent ws \<Longrightarrow> list_all (\<lambda>ev. \<not> isLockEvent ev) ws"
proof -
  have "isGitEvent ev \<Longrightarrow> \<not> isLockEvent ev" for ev by (cases ev) auto
  then show "list_all isGitEvent ws \<Longrightarrow> list_all (\<lambda>ev. \<not> isLockEvent ev) ws"
    by (auto simp: list_all_iff)
qed

lemma createPath_lockScoped: "createPath env swarmID r new \<Longrightarrow> lockScoped swarmID r new"
  by (cases rule: createPath.cases) (auto simp: lockScoped_def)

lemma mergePath_lockScoped: "mergePath env swarmID wb r new \<Longrightarrow> lockScoped swarmID r new"
  by (cases rule: mergePath.cases)
     (auto simp: lockScoped_def butlast_append dest: prelude_not_lock)

lemma landPath_lockScoped: "landPath env swarmID r new \<Longrightarrow> lockScoped swarmID r new"
  by (cases rule: landPath.cases)
     (auto simp: lockScoped_def butlast_append dest: prelude_not_lock)

lemma cleanupPath_lockScoped: "cleanupPath env swarmID r new \<Longrightarrow> lockScoped swarmID r new"
  by (cases rule: cleanupPath.cases)
     (auto simp: lockScoped_def butlast_append dest: git_not_lock)

lemma newEvents_append [simp]: "newEvents log (r, log @ new) = new"
  by (simp add: newEvents_def)

text \<open>
  C6, amended. \<^verbatim>\<open>CreateIntegrationBranch\<close>, \<^verbatim>\<open>MergeToIntegration\<close>, \<^verbatim>\<open>LandToMain\<close> and
  \<^verbatim>\<open>CleanupBranches\<close> take the lock of the swarm first, release it last on every exit, and
  touch no lock in between; when the lock cannot be taken they do nothing else and return that
  error. \<^verbatim>\<open>AbortMerge\<close> has no swarm identifier: it runs \<^verbatim>\<open>git merge --abort\<close> and takes no lock.
\<close>

theorem lifecycle_operations_hold_the_lock:
  "lockScoped swarmID (fst (CreateIntegrationBranch env swarmID log))
      (newEvents log (CreateIntegrationBranch env swarmID log))
   \<and> lockScoped swarmID (fst (MergeToIntegration env swarmID workerBranch log))
      (newEvents log (MergeToIntegration env swarmID workerBranch log))
   \<and> lockScoped swarmID (fst (LandToMain env swarmID log))
      (newEvents log (LandToMain env swarmID log))
   \<and> lockScoped swarmID (fst (CleanupBranches env swarmID log))
      (newEvents log (CleanupBranches env swarmID log))
   \<and> newEvents log (AbortMerge env log) =
        [EvGit [''merge'', ''--abort''] (git_result env log [''merge'', ''--abort''])]"
proof (intro conjI)
  obtain r log' where run: "CreateIntegrationBranch env swarmID log = (r, log')" by force
  from CreateIntegrationBranch_paths [OF run] obtain new where
    "log' = log @ new" "createPath env swarmID r new" by auto
  then show "lockScoped swarmID (fst (CreateIntegrationBranch env swarmID log))
      (newEvents log (CreateIntegrationBranch env swarmID log))"
    using run createPath_lockScoped by simp
next
  obtain r log' where run: "MergeToIntegration env swarmID workerBranch log = (r, log')" by force
  from MergeToIntegration_paths [OF run] obtain new where
    "log' = log @ new" "mergePath env swarmID workerBranch r new" by auto
  then show "lockScoped swarmID (fst (MergeToIntegration env swarmID workerBranch log))
      (newEvents log (MergeToIntegration env swarmID workerBranch log))"
    using run mergePath_lockScoped by simp
next
  obtain r log' where run: "LandToMain env swarmID log = (r, log')" by force
  from LandToMain_paths [OF run] obtain new where
    "log' = log @ new" "landPath env swarmID r new" by auto
  then show "lockScoped swarmID (fst (LandToMain env swarmID log))
      (newEvents log (LandToMain env swarmID log))"
    using run landPath_lockScoped by simp
next
  obtain r log' where run: "CleanupBranches env swarmID log = (r, log')" by force
  from CleanupBranches_paths [OF run] obtain new where
    "log' = log @ new" "cleanupPath env swarmID r new" by auto
  then show "lockScoped swarmID (fst (CleanupBranches env swarmID log))
      (newEvents log (CleanupBranches env swarmID log))"
    using run cleanupPath_lockScoped by simp
next
  show "newEvents log (AbortMerge env log) =
        [EvGit [''merge'', ''--abort''] (git_result env log [''merge'', ''--abort''])]"
    by (simp add: AbortMerge_def gitRun_eq newEvents_def)
qed

text \<open>
  The run of \<^verbatim>\<open>AbortMerge\<close> in an environment where every command succeeds is the one
  \<^verbatim>\<open>git\<close> command: no lock is taken.
\<close>

theorem AbortMerge_takes_no_lock_counterexample:
  "newEvents [] (AbortMerge (envOf existsRun) []) = [EvGit [''merge'', ''--abort''] procOK]
   \<and> \<not> lockScoped ''sw-1'' (fst (AbortMerge (envOf existsRun) []))
          (newEvents [] (AbortMerge (envOf existsRun) []))"
  by code_simp

section \<open>Properties of branch names\<close>

text \<open>
  C7. \<^verbatim>\<open>GetWorkerBranch\<close> returns \<^verbatim>\<open><swarmID>/<worker>/<taskID>\<close> for every triple of arguments,
  in particular \<^verbatim>\<open>sw-1/Toast/task-123\<close> for \<^verbatim>\<open>("sw-1", "Toast", "task-123")\<close>; the value is a function
  of the three arguments alone: it is the same for any two managers.
\<close>

theorem GetWorkerBranch_pure:
  "GetWorkerBranch m swarmID worker taskID = swarmID @ ''/'' @ worker @ ''/'' @ taskID
   \<and> GetWorkerBranch m ''sw-1'' ''Toast'' ''task-123'' = ''sw-1/Toast/task-123''
   \<and> GetWorkerBranch m swarmID worker taskID = GetWorkerBranch m' swarmID worker taskID"
  by (simp add: GetWorkerBranch_def)

lemma takeWhile_upto:
  "c \<notin> set a \<Longrightarrow> takeWhile (\<lambda>d. d \<noteq> c) (a @ c # x) = a"
  by (induction a) auto

lemma slash_split:
  assumes a: "CHR ''/'' \<notin> set a" and b: "CHR ''/'' \<notin> set b"
    and eq: "a @ ''/'' @ x = b @ ''/'' @ y"
  shows "a = b \<and> x = y"
proof -
  have "takeWhile (\<lambda>c. c \<noteq> CHR ''/'') (a @ ''/'' @ x) = a"
    using a by (simp add: takeWhile_upto)
  moreover have "takeWhile (\<lambda>c. c \<noteq> CHR ''/'') (b @ ''/'' @ y) = b"
    using b by (simp add: takeWhile_upto)
  ultimately have "a = b" using eq by simp
  with eq show ?thesis by simp
qed

text \<open>
  C8, amended. Under one swarm, two distinct pairs of worker and task identifier have distinct
  branch names whenever neither worker contains a slash, or neither task identifier contains
  a slash.
\<close>

theorem GetWorkerBranch_injective_without_slash:
  assumes distinct: "(worker1, taskID1) \<noteq> (worker2, taskID2)"
      and noslash: "CHR ''/'' \<notin> set worker1 \<and> CHR ''/'' \<notin> set worker2
                    \<or> CHR ''/'' \<notin> set taskID1 \<and> CHR ''/'' \<notin> set taskID2"
  shows "GetWorkerBranch m swarmID worker1 taskID1 \<noteq> GetWorkerBranch m swarmID worker2 taskID2"
proof
  assume "GetWorkerBranch m swarmID worker1 taskID1 = GetWorkerBranch m swarmID worker2 taskID2"
  then have eq: "worker1 @ ''/'' @ taskID1 = worker2 @ ''/'' @ taskID2"
    by (simp add: GetWorkerBranch_def)
  from noslash have "worker1 = worker2 \<and> taskID1 = taskID2"
  proof
    assume "CHR ''/'' \<notin> set worker1 \<and> CHR ''/'' \<notin> set worker2"
    with eq show ?thesis using slash_split [of worker1 worker2 taskID1 taskID2] by simp
  next
    assume t: "CHR ''/'' \<notin> set taskID1 \<and> CHR ''/'' \<notin> set taskID2"
    from eq have "rev (worker1 @ ''/'' @ taskID1) = rev (worker2 @ ''/'' @ taskID2)" by simp
    then have "rev taskID1 @ ''/'' @ rev worker1 = rev taskID2 @ ''/'' @ rev worker2" by simp
    with t have "rev taskID1 = rev taskID2 \<and> rev worker1 = rev worker2"
      using slash_split [of "rev taskID1" "rev taskID2" "rev worker1" "rev worker2"] by simp
    then show ?thesis by simp
  qed
  with distinct show False by simp
qed

theorem GetWorkerBranch_injective_without_slash_witness:
  "(''Toast'', ''task-1'') \<noteq> (''Toast'', ''task-2'')
   \<and> (CHR ''/'' \<notin> set ''Toast'' \<and> CHR ''/'' \<notin> set ''Toast'')
   \<and> GetWorkerBranch () ''sw-1'' ''Toast'' ''task-1'' \<noteq> GetWorkerBranch () ''sw-1'' ''Toast'' ''task-2''"
proof -
  have d: "(''Toast'', ''task-1'') \<noteq> (''Toast'', ''task-2'')" by simp
  have n: "CHR ''/'' \<notin> set ''Toast'' \<and> CHR ''/'' \<notin> set ''Toast''" by simp
  from n have n': "CHR ''/'' \<notin> set ''Toast'' \<and> CHR ''/'' \<notin> set ''Toast''
                    \<or> CHR ''/'' \<notin> set ''task-1'' \<and> CHR ''/'' \<notin> set ''task-2''" by (rule disjI1)
  note c = GetWorkerBranch_injective_without_slash [OF d n', of "()" "''sw-1''"]
  from d n c show ?thesis by simp
qed

text \<open>
  With a slash in a worker and in a task identifier, two distinct pairs share one name.
\<close>

theorem GetWorkerBranch_collision_counterexample:
  "(''a/b'', ''c'') \<noteq> (''a'', ''b/c'')
   \<and> GetWorkerBranch () ''sw-1'' ''a/b'' ''c'' = GetWorkerBranch () ''sw-1'' ''a'' ''b/c''"
  by (simp add: GetWorkerBranch_def)

end
